theory Spec2Isabelle
  imports Complex_Main "HOL-Library.AList" "HOL-Library.Sublist" "HOL-Library.Multiset"
begin

section \<open>Whisper relay: a model of inline/whisper.py\<close>

text \<open>
  The module keeps two process-wide dictionaries (the whisper cache and the view
  cooldowns), a parser for addressing strings, and the handler of the reveal button.
  Clock readings (\<^verbatim>\<open>time.time()\<close>) are real numbers in seconds; every
  reading a function makes is a parameter of its model, in the order the source reads
  the clock. Strings are sequences of code points below 256, on which
  \<^verbatim>\<open>str.lower\<close>, \<^verbatim>\<open>str.strip\<close> and \<^verbatim>\<open>str.split\<close>
  are modelled as Python defines them; \<^verbatim>\<open>len\<close> is the number of code points.
\<close>

subsection \<open>Constants\<close>

definition WHISPER_EXPIRY_HOURS :: real where
  "WHISPER_EXPIRY_HOURS = 3"

definition WHISPER_MAX_LENGTH :: nat where
  "WHISPER_MAX_LENGTH = 1000"

definition WHISPER_ALERT_MAX_LENGTH :: nat where
  "WHISPER_ALERT_MAX_LENGTH = 170"

definition VIEW_COOLDOWN_SECONDS :: real where
  "VIEW_COOLDOWN_SECONDS = 5"

subsection \<open>Python string operations\<close>

text \<open>
  \<^verbatim>\<open>str.isspace\<close> on one code point below 256: TAB..CR, FS..US, space, NEL and
  the no-break space.
\<close>

definition isspace :: "char \<Rightarrow> bool" where
  "isspace c =
     (let n = (of_char c :: nat)
      in (9 \<le> n \<and> n \<le> 13) \<or> (28 \<le> n \<and> n \<le> 32) \<or> n = 133 \<or> n = 160)"

text \<open>
  \<^verbatim>\<open>str.lower\<close> on one code point below 256: A..Z and the accented capitals
  U+00C0..U+00DE (the multiplication sign U+00D7 apart) move up by 32.
\<close>

definition lower_char :: "char \<Rightarrow> char" where
  "lower_char c =
     (let n = (of_char c :: nat)
      in if (65 \<le> n \<and> n \<le> 90) \<or> (192 \<le> n \<and> n \<le> 222 \<and> n \<noteq> 215)
         then char_of (n + 32) else c)"

definition lower :: "string \<Rightarrow> string" where
  "lower s = map lower_char s"

text \<open>\<^verbatim>\<open>s.strip()\<close>: leading and trailing whitespace removed.\<close>

definition strip :: "string \<Rightarrow> string" where
  "strip s = rev (dropWhile isspace (rev (dropWhile isspace s)))"

text \<open>\<^verbatim>\<open>s.rstrip(chars)\<close>: trailing characters of the given set removed.\<close>

definition rstrip_chars :: "string \<Rightarrow> string \<Rightarrow> string" where
  "rstrip_chars s chars = rev (dropWhile (\<lambda>c. c \<in> set chars) (rev s))"

text \<open>\<^verbatim>\<open>s.rfind(c)\<close>: the index of the last occurrence of a character, or -1.\<close>

definition rfind :: "string \<Rightarrow> char \<Rightarrow> int" where
  "rfind s c =
     (if c \<in> set s
      then int (length s) - 1 - int (length (takeWhile (\<lambda>x. x \<noteq> c) (rev s)))
      else - 1)"

text \<open>\<^verbatim>\<open>s.startswith(p)\<close>.\<close>

definition startswith :: "string \<Rightarrow> string \<Rightarrow> bool" where
  "startswith s p = prefix p s"

text \<open>
  \<^verbatim>\<open>s.split()\<close> with no argument: the maximal runs of non-whitespace
  characters, in order.
\<close>

function split_ws :: "string \<Rightarrow> string list" where
  "split_ws s =
     (let s1 = dropWhile isspace s
      in if s1 = [] then []
         else takeWhile (\<lambda>c. \<not> isspace c) s1 # split_ws (dropWhile (\<lambda>c. \<not> isspace c) s1))"
  by pat_completeness auto
termination
proof (relation "measure length")
  show "wf (measure length)" by simp
next
  fix s s1 :: string
  assume s1: "s1 = dropWhile isspace s" and ne: "s1 \<noteq> []"
  from ne obtain c cs where cs: "s1 = c # cs" by (cases s1) auto
  from s1 cs have "dropWhile isspace s = c # cs" by simp
  then have "\<not> isspace c" by (simp add: dropWhile_eq_Cons_conv)
  then have "dropWhile (\<lambda>c. \<not> isspace c) s1 = dropWhile (\<lambda>c. \<not> isspace c) cs"
    using cs by simp
  then have "length (dropWhile (\<lambda>c. \<not> isspace c) s1) \<le> length cs"
    by (simp add: length_dropWhile_le)
  moreover have "length s1 \<le> length s"
    using s1 by (simp add: length_dropWhile_le)
  ultimately show "(dropWhile (\<lambda>c. \<not> isspace c) s1, s) \<in> measure length"
    using cs by simp
qed

declare split_ws.simps [simp del]

subsection \<open>The addressing-string parser\<close>

text \<open>
  Lines 59 to 77 of \<^verbatim>\<open>_parse_whisper_query\<close>: the query is trimmed and the
  mention of the bot removed. \<open>None\<close> is the \<^verbatim>\<open>return None\<close> of the
  \<^verbatim>\<open>else\<close> branch; otherwise the value of \<^verbatim>\<open>remaining\<close>.
\<close>

definition remaining_after_mention :: "string \<Rightarrow> string \<Rightarrow> string option" where
  "remaining_after_mention query0 bot_username =
     (let query = strip query0;
          query_lower = lower query;
          bot_username_lower = lower bot_username;
          bot_mention_with_at = ''@'' @ bot_username_lower
      in if startswith query_lower bot_mention_with_at then
           (if startswith query (''@'' @ bot_username)
            then Some (strip (drop (length (''@'' @ bot_username)) query))
            else Some (strip (drop (length bot_mention_with_at) query)))
         else if startswith query_lower bot_username_lower then
           (if startswith query bot_username
            then Some (strip (drop (length bot_username) query))
            else Some (strip (drop (length bot_username_lower) query)))
         else None)"

text \<open>
  Lines 79 to 106: the recipient is what follows the last @ (its first word, trailing
  punctuation removed), the message what precedes it.
\<close>

definition parse_remaining :: "string \<Rightarrow> (string \<times> string) option" where
  "parse_remaining remaining =
     (if remaining = [] then None
      else let last_at_index = rfind remaining (CHR ''@'')
      in if last_at_index = - 1 then None
         else let recipient_part = strip (drop (nat (last_at_index + 1)) remaining)
         in if recipient_part = [] then None
            else let recipient_username =
                   (case split_ws recipient_part of
                      w # _ \<Rightarrow> rstrip_chars w ''.,!?;:''
                    | [] \<Rightarrow> rstrip_chars recipient_part ''.,!?;:'')
            in if recipient_username = [] then None
               else let message_text = strip (take (nat last_at_index) remaining)
               in if message_text = [] then None
                  else Some (message_text, recipient_username))"

definition parse_whisper_query :: "string \<Rightarrow> string \<Rightarrow> (string \<times> string) option" where
  "parse_whisper_query query bot_username =
     (if query = [] then None
      else case remaining_after_mention query bot_username of
             None \<Rightarrow> None
           | Some remaining \<Rightarrow> parse_remaining remaining)"

text \<open>
  The forms in which a query can mention the bot: its handle as given or lower-cased,
  with or without the leading @.
\<close>

definition mention_forms :: "string \<Rightarrow> string list" where
  "mention_forms bot_username =
     [bot_username, lower bot_username, ''@'' @ bot_username, ''@'' @ lower bot_username]"

text \<open>A single word: no character of it is whitespace.\<close>

definition no_whitespace :: "string \<Rightarrow> bool" where
  "no_whitespace s = (\<forall>c\<in>set s. \<not> isspace c)"

subsection \<open>Python truthiness\<close>

text \<open>
  \<^verbatim>\<open>if x:\<close> on an optional string holds when the string is present and not
  empty; on an optional integer when it is present and not zero.
\<close>

definition nonempty :: "string option \<Rightarrow> string option" where
  "nonempty s = (case s of Some (c # cs) \<Rightarrow> Some (c # cs) | _ \<Rightarrow> None)"

definition truthy_id :: "int option \<Rightarrow> bool" where
  "truthy_id i = (case i of Some n \<Rightarrow> n \<noteq> 0 | None \<Rightarrow> False)"

text \<open>\<^verbatim>\<open>int(x)\<close> on a float: truncation towards zero.\<close>

definition py_int :: "real \<Rightarrow> int" where
  "py_int x = (if 0 \<le> x then \<lfloor>x\<rfloor> else \<lceil>x\<rceil>)"

subsection \<open>The whisper cache\<close>

text \<open>
  A whisper is the dictionary stored by \<^verbatim>\<open>create_whisper\<close>. The cache is a
  Python dictionary from whisper ids to whispers: an association list in insertion
  order, whose keys are distinct.
\<close>

record whisper =
  sender_id :: int
  recipient_id :: "int option"
  recipient_username :: string
  message_text :: string
  created_at :: real
  expires_at :: real

type_synonym cache = "(string \<times> whisper) list"

type_synonym cooldowns = "int \<rightharpoonup> real"

definition cleanup_expired_whispers :: "real \<Rightarrow> cache \<Rightarrow> nat \<times> cache" where
  "cleanup_expired_whispers current_time whispers_cache =
     (let expired_ids =
            map fst (filter (\<lambda>(whisper_id, whisper_data).
                               expires_at whisper_data < current_time) whispers_cache)
      in (length expired_ids, fold AList.delete expired_ids whispers_cache))"

definition cleanup_old_cooldowns :: "real \<Rightarrow> cooldowns \<Rightarrow> cooldowns" where
  "cleanup_old_cooldowns current_time view_cooldowns =
     (\<lambda>user_id. case view_cooldowns user_id of
                  None \<Rightarrow> None
                | Some last_view \<Rightarrow>
                    if current_time - last_view > VIEW_COOLDOWN_SECONDS * 2 then None
                    else Some last_view)"

subsection \<open>The collaborators\<close>

text \<open>
  The user database and the platform client are outside the module. A call either
  raises or returns; the rows of the database carry the keys the module reads.
\<close>

datatype 'a outcome = Raises | Returns 'a

record user_data =
  ud_user_id :: int
  ud_is_bot :: bool
  ud_username :: "string option"
  ud_first_name :: "string option"

text \<open>
  What \<^verbatim>\<open>bot.get_chat\<close> returns: \<open>chat_is_bot\<close> is \<open>None\<close> when the
  object has no attribute \<^verbatim>\<open>is_bot\<close>.
\<close>

record chat =
  chat_id :: int
  chat_is_bot :: "bool option"

text \<open>
  The texts the handler shows, by their kind and the values put into them: the label
  of a user is the placeholder for an unknown name, a handle behind @, or a first name.
\<close>

datatype name_label = Unknown | AtHandle string | FirstName string

datatype message =
    PleaseWait int
  | NotFoundOrExpired
  | NoAccess
  | RevealAlert bool name_label string
  | RevealHtml bool name_label string
  | SentToChat
  | SentToPrivate
  | CouldNotSend

datatype action = AnswerCallback message bool | SendMessage int message

text \<open>
  The client: \<open>send_message\<close> is \<open>False\<close> where the call raises.
\<close>

record bot_api =
  get_chat :: "string \<Rightarrow> chat outcome"
  send_message :: "int \<Rightarrow> message \<Rightarrow> bool"

record collaborators =
  db_get_user_by_username :: "string \<Rightarrow> user_data option outcome"
  db_get_user :: "int \<Rightarrow> user_data option outcome"
  bot_instance :: "bot_api option"

subsection \<open>Creating a whisper\<close>

text \<open>
  The loop of lines 125 to 128 over the handle as given and lower-cased: the second
  query is made only when the first finds nothing.
\<close>

definition find_user_data :: "collaborators \<Rightarrow> string \<Rightarrow> user_data option outcome" where
  "find_user_data env recipient =
     (case db_get_user_by_username env recipient of
        Raises \<Rightarrow> Raises
      | Returns (Some user) \<Rightarrow> Returns (Some user)
      | Returns None \<Rightarrow> db_get_user_by_username env (lower recipient))"

text \<open>
  The \<^verbatim>\<open>try\<close> block of lines 121 to 150 either leaves the function
  (\<open>Refused\<close>, a \<^verbatim>\<open>return None\<close>) or ends with a value of
  \<^verbatim>\<open>recipient_id\<close>. Lines 146 and 147 are \<open>self_check\<close>.
\<close>

datatype lookup = Refused | Recipient "int option"

definition self_check :: "int \<Rightarrow> int option \<Rightarrow> lookup" where
  "self_check sender rid =
     (if truthy_id rid \<and> rid = Some sender then Refused else Recipient rid)"

definition lookup_recipient :: "collaborators \<Rightarrow> int \<Rightarrow> string \<Rightarrow> lookup" where
  "lookup_recipient env sender recipient =
     (case find_user_data env recipient of
        Raises \<Rightarrow> Recipient None
      | Returns (Some user) \<Rightarrow>
          if ud_is_bot user then Refused else self_check sender (Some (ud_user_id user))
      | Returns None \<Rightarrow>
          (case bot_instance env of
             None \<Rightarrow> self_check sender None
           | Some api \<Rightarrow>
               (case get_chat api (''@'' @ recipient) of
                  Raises \<Rightarrow> self_check sender None
                | Returns c \<Rightarrow>
                    if chat_is_bot c = Some True then Refused
                    else self_check sender (Some (chat_id c)))))"

text \<open>
  \<open>new_id\<close> is the string \<^verbatim>\<open>str(uuid.uuid4())\<close> of line 152. The result is
  the returned id and the cache.
\<close>

definition create_whisper ::
  "collaborators \<Rightarrow> real \<Rightarrow> string \<Rightarrow> int \<Rightarrow> string \<Rightarrow> string \<Rightarrow> cache
     \<Rightarrow> string option \<times> cache" where
  "create_whisper env current_time new_id sender recipient text whispers_cache =
     (if length text > WHISPER_MAX_LENGTH then (None, whispers_cache)
      else case lookup_recipient env sender recipient of
             Refused \<Rightarrow> (None, whispers_cache)
           | Recipient rid \<Rightarrow>
               (Some new_id,
                AList.update new_id
                  \<lparr>sender_id = sender,
                   recipient_id = rid,
                   recipient_username = lower recipient,
                   message_text = text,
                   created_at = current_time,
                   expires_at = current_time + WHISPER_EXPIRY_HOURS * 3600\<rparr>
                  whispers_cache))"

text \<open>
  What a handle resolves to, as the claims speak of it: the identity and the bot flag
  found by the database (the handle as given, then lower-cased) or else by the
  platform; nothing when a lookup raises, finds nothing or there is no client.
\<close>

datatype resolution = Unresolved | ResolvedTo int bool

definition resolve :: "collaborators \<Rightarrow> string \<Rightarrow> resolution" where
  "resolve env handle =
     (case db_get_user_by_username env handle of
        Raises \<Rightarrow> Unresolved
      | Returns (Some user) \<Rightarrow> ResolvedTo (ud_user_id user) (ud_is_bot user)
      | Returns None \<Rightarrow>
          (case db_get_user_by_username env (lower handle) of
             Raises \<Rightarrow> Unresolved
           | Returns (Some user) \<Rightarrow> ResolvedTo (ud_user_id user) (ud_is_bot user)
           | Returns None \<Rightarrow>
               (case bot_instance env of
                  None \<Rightarrow> Unresolved
                | Some api \<Rightarrow>
                    (case get_chat api (''@'' @ handle) of
                       Raises \<Rightarrow> Unresolved
                     | Returns c \<Rightarrow> ResolvedTo (chat_id c) (chat_is_bot c = Some True)))))"

fun resolves_to_bot :: "resolution \<Rightarrow> bool" where
  "resolves_to_bot Unresolved = False"
| "resolves_to_bot (ResolvedTo i b) = b"

fun resolves_to_id :: "resolution \<Rightarrow> int \<Rightarrow> bool" where
  "resolves_to_id Unresolved u = False"
| "resolves_to_id (ResolvedTo i b) u = (i = u)"

subsection \<open>Reading whispers\<close>

text \<open>
  \<^verbatim>\<open>get_whispers_for_user\<close> reads the clock in the sweep and again for its own
  test; the list is sorted by creation time, latest first, and Python's sort is stable.
\<close>

definition get_whispers_for_user ::
  "real \<Rightarrow> real \<Rightarrow> int \<Rightarrow> string option \<Rightarrow> cache \<Rightarrow> (string \<times> whisper) list \<times> cache" where
  "get_whispers_for_user sweep_time current_time user username whispers_cache =
     (let cache1 = snd (cleanup_expired_whispers sweep_time whispers_cache);
          username_lower = map_option lower (nonempty username);
          user_whispers =
            filter (\<lambda>(whisper_id, whisper_data).
                      \<not> expires_at whisper_data \<le> current_time \<and>
                      (recipient_id whisper_data = Some user \<or>
                       (recipient_id whisper_data = None \<and>
                        (case username_lower of
                           Some u \<Rightarrow> recipient_username whisper_data = u
                         | None \<Rightarrow> False))))
                   cache1
      in (sort_key (\<lambda>(whisper_id, whisper_data). - created_at whisper_data) user_whispers,
          cache1))"

definition get_whisper_by_id ::
  "real \<Rightarrow> real \<Rightarrow> string \<Rightarrow> cache \<Rightarrow> whisper option \<times> cache" where
  "get_whisper_by_id sweep_time current_time whisper_id whispers_cache =
     (let cache1 = snd (cleanup_expired_whispers sweep_time whispers_cache)
      in case map_of cache1 whisper_id of
           None \<Rightarrow> (None, cache1)
         | Some w \<Rightarrow>
             if expires_at w < current_time then (None, AList.delete whisper_id cache1)
             else (Some w, cache1))"

subsection \<open>The view cooldown\<close>

text \<open>
  \<^verbatim>\<open>check_view_cooldown\<close> reads the clock once; an admitted call reads it
  again in \<^verbatim>\<open>_cleanup_old_cooldowns\<close>.
\<close>

definition check_view_cooldown ::
  "real \<Rightarrow> real \<Rightarrow> int \<Rightarrow> cooldowns \<Rightarrow> (bool \<times> int) \<times> cooldowns" where
  "check_view_cooldown current_time cleanup_time user view_cooldowns =
     (let admitted =
            ((True, 0), cleanup_old_cooldowns cleanup_time (view_cooldowns(user \<mapsto> current_time)))
      in case view_cooldowns user of
           None \<Rightarrow> admitted
         | Some last_view \<Rightarrow>
             (let time_passed = current_time - last_view
              in if time_passed < VIEW_COOLDOWN_SECONDS
                 then ((False, py_int (VIEW_COOLDOWN_SECONDS - time_passed)), view_cooldowns)
                 else admitted))"

subsection \<open>The reveal handler\<close>

text \<open>
  \<^verbatim>\<open>s.replace(old, "")\<close>: the occurrences of \<open>old\<close> are removed from left to
  right.
\<close>

function str_remove :: "string \<Rightarrow> string \<Rightarrow> string" where
  "str_remove s old =
     (if s = [] then []
      else if old \<noteq> [] \<and> prefix old s then str_remove (drop (length old) s) old
      else hd s # str_remove (tl s) old)"
  by pat_completeness auto
termination
  by (relation "measure (\<lambda>(s, old). length s)") auto

declare str_remove.simps [simp del]

record callback_query =
  cb_data :: "string option"
  cb_user_id :: int
  cb_username :: "string option"
  cb_chat_id :: "int option"

text \<open>
  \<open>cb_username\<close> is \<^verbatim>\<open>callback.from_user.username\<close> and \<open>cb_chat_id\<close> is
  \<^verbatim>\<open>callback.message.chat.id\<close>, absent when the callback has no message. The two
  dictionaries of the module are the state.
\<close>

record bot_state =
  whispers_cache :: cache
  view_cooldowns :: cooldowns

text \<open>Lines 533 to 542: the lower-cased handle of the requester.\<close>

definition requester_username :: "collaborators \<Rightarrow> callback_query \<Rightarrow> string option" where
  "requester_username env callback =
     (case nonempty (cb_username callback) of
        Some u \<Rightarrow> Some (lower u)
      | None \<Rightarrow>
          (case db_get_user env (cb_user_id callback) of
             Returns (Some user) \<Rightarrow> map_option lower (nonempty (ud_username user))
           | _ \<Rightarrow> None))"

text \<open>
  Lines 526 to 546: whether the requester is the recipient, and the whisper after the
  assignment of line 546. The whisper is the dictionary held by the cache, so the
  handler below writes it back.
\<close>

definition recipient_check ::
  "collaborators \<Rightarrow> callback_query \<Rightarrow> whisper \<Rightarrow> bool \<times> whisper" where
  "recipient_check env callback w =
     (if recipient_id w = Some (cb_user_id callback) then (True, w)
      else if recipient_id w = None \<and> recipient_username w \<noteq> [] then
        (case requester_username env callback of
           Some user_username \<Rightarrow>
             if recipient_username w = user_username
             then (True, w\<lparr>recipient_id := Some (cb_user_id callback)\<rparr>)
             else (False, w)
         | None \<Rightarrow> (False, w))
      else (False, w))"

text \<open>Lines 562 to 584: the names shown for the sender and the recipient.\<close>

definition display_name :: "user_data option outcome \<Rightarrow> name_label" where
  "display_name r =
     (case r of
        Returns (Some user) \<Rightarrow>
          (case nonempty (ud_username user) of
             Some u \<Rightarrow> AtHandle u
           | None \<Rightarrow>
               (case nonempty (ud_first_name user) of
                  Some f \<Rightarrow> FirstName f
                | None \<Rightarrow> Unknown))
      | _ \<Rightarrow> Unknown)"

definition recipient_label :: "collaborators \<Rightarrow> whisper \<Rightarrow> name_label" where
  "recipient_label env w =
     (case recipient_id w of
        Some rid \<Rightarrow>
          if rid \<noteq> 0 then display_name (db_get_user env rid)
          else if recipient_username w \<noteq> [] then AtHandle (recipient_username w)
          else Unknown
      | None \<Rightarrow>
          if recipient_username w \<noteq> [] then AtHandle (recipient_username w) else Unknown)"

text \<open>
  Lines 586 to 629: a short text is the answer of the callback, shown as an alert; a
  longer one is sent as a message and the answer only says where it went.
\<close>

definition present ::
  "collaborators \<Rightarrow> bot_api \<Rightarrow> callback_query \<Rightarrow> bool \<Rightarrow> whisper \<Rightarrow> action list" where
  "present env api callback is_sender w =
     (let counterpart =
            (if is_sender then recipient_label env w
             else display_name (db_get_user env (sender_id w)))
      in if length (message_text w) \<le> WHISPER_ALERT_MAX_LENGTH
         then [AnswerCallback (RevealAlert is_sender counterpart (message_text w)) True]
         else
           (let display_text = RevealHtml is_sender counterpart (message_text w);
                (target, note) =
                  (case cb_chat_id callback of
                     Some c \<Rightarrow>
                       if c \<noteq> 0 then (c, SentToChat) else (cb_user_id callback, SentToPrivate)
                   | None \<Rightarrow> (cb_user_id callback, SentToPrivate))
            in if send_message api target display_text
               then [SendMessage target display_text, AnswerCallback note False]
               else [AnswerCallback CouldNotSend True]))"

text \<open>
  \<^verbatim>\<open>whisper_callback_handler\<close>, with the four clock readings of the cooldown and
  of the lookup. The whisper is written back under its id after the check of the
  recipient: this is the assignment of line 546 when the check made it, and leaves
  the cache as it is otherwise. The answers of the callback are taken to be
  delivered, so the handler of the outer \<^verbatim>\<open>except\<close> is never entered.
\<close>

definition whisper_callback_handler ::
  "collaborators \<Rightarrow> real \<Rightarrow> real \<Rightarrow> real \<Rightarrow> real \<Rightarrow> callback_query \<Rightarrow> bot_state
     \<Rightarrow> action list \<times> bot_state" where
  "whisper_callback_handler env t1 t2 t3 t4 callback st =
     (case bot_instance env of
        None \<Rightarrow> ([], st)
      | Some api \<Rightarrow>
          (case nonempty (cb_data callback) of
             None \<Rightarrow> ([], st)
           | Some data \<Rightarrow>
               if \<not> startswith data ''whisper_view_'' then ([], st)
               else
                 (let whisper_id = str_remove data ''whisper_view_'';
                      user = cb_user_id callback;
                      ((can_view, remaining), cds) =
                        check_view_cooldown t1 t2 user (view_cooldowns st)
                  in if \<not> can_view
                     then ([AnswerCallback (PleaseWait remaining) True],
                           st\<lparr>view_cooldowns := cds\<rparr>)
                     else
                       (let (found, cache1) =
                              get_whisper_by_id t3 t4 whisper_id (whispers_cache st)
                        in case found of
                             None \<Rightarrow>
                               ([AnswerCallback NotFoundOrExpired True],
                                \<lparr>whispers_cache = cache1, view_cooldowns = cds\<rparr>)
                           | Some w0 \<Rightarrow>
                               (let (is_recipient, w) = recipient_check env callback w0;
                                    cache2 = AList.update whisper_id w cache1;
                                    st2 = \<lparr>whispers_cache = cache2, view_cooldowns = cds\<rparr>;
                                    is_sender = (sender_id w = user)
                                in if \<not> is_recipient \<and> \<not> is_sender
                                   then ([AnswerCallback NoAccess True], st2)
                                   else (present env api callback is_sender w, st2))))))"

subsection \<open>Operations and runs\<close>

text \<open>
  The entry points that touch the cache, as operations on the state: creating a
  whisper, reading one by id, listing those of a user, the periodic sweep, and a press
  of the reveal button.
\<close>

datatype op =
    Create collaborators real string int string string
  | GetById real real string
  | ListFor real real int "string option"
  | Sweep real
  | Reveal collaborators real real real real callback_query

fun step :: "op \<Rightarrow> bot_state \<Rightarrow> bot_state" where
  "step (Create env now new_id sender recipient text) st =
     st\<lparr>whispers_cache :=
          snd (create_whisper env now new_id sender recipient text (whispers_cache st))\<rparr>"
| "step (GetById t1 t2 whisper_id) st =
     st\<lparr>whispers_cache := snd (get_whisper_by_id t1 t2 whisper_id (whispers_cache st))\<rparr>"
| "step (ListFor t1 t2 user username) st =
     st\<lparr>whispers_cache := snd (get_whispers_for_user t1 t2 user username (whispers_cache st))\<rparr>"
| "step (Sweep t) st =
     st\<lparr>whispers_cache := snd (cleanup_expired_whispers t (whispers_cache st))\<rparr>"
| "step (Reveal env t1 t2 t3 t4 callback) st =
     snd (whisper_callback_handler env t1 t2 t3 t4 callback st)"

definition run :: "op list \<Rightarrow> bot_state \<Rightarrow> bot_state" where
  "run ops st = fold step ops st"

definition initial :: bot_state where
  "initial = \<lparr>whispers_cache = [], view_cooldowns = Map.empty\<rparr>"

text \<open>The id a creation stores under, for runs in which ids are never reused.\<close>

fun creates :: "op \<Rightarrow> string \<Rightarrow> bool" where
  "creates (Create env now new_id sender recipient text) i = (new_id = i)"
| "creates _ i = False"

text \<open>The invariant of the cache: the fixed lifetime and the bound on the text.\<close>

definition store_invariant :: "cache \<Rightarrow> bool" where
  "store_invariant c =
     (\<forall>(i, w)\<in>set c. expires_at w = created_at w + 3 * 3600 \<and> length (message_text w) \<le> 1000)"

text \<open>An action that carries the text of a whisper.\<close>

fun is_reveal :: "message \<Rightarrow> bool" where
  "is_reveal (RevealAlert s l t) = True"
| "is_reveal (RevealHtml s l t) = True"
| "is_reveal _ = False"

fun carried :: "action \<Rightarrow> message" where
  "carried (AnswerCallback m a) = m"
| "carried (SendMessage target m) = m"

definition reveals :: "action list \<Rightarrow> bool" where
  "reveals acts = list_ex (\<lambda>a. is_reveal (carried a)) acts"

subsection \<open>Presses that overlap\<close>

text \<open>
  The handler is a coroutine. Between reading \<^verbatim>\<open>recipient_id\<close> (line 526) and
  assigning it (line 546) it gives up control in one place only: the
  \<^verbatim>\<open>await db.get_user(user_id)\<close> of line 538, reached when the whisper has no
  recipient id and the callback carries no handle. (\<^verbatim>\<open>get_whisper_by_id\<close> has
  no \<^verbatim>\<open>await\<close> inside, so awaiting it does not give up control; the later
  waits come after the last access to the dictionaries.) A press that reaches line 538
  is therefore two steps, and other requests can run between them.

  Lines 548 to 629, once it is known whether the requester is the recipient:
\<close>

definition finish_press ::
  "collaborators \<Rightarrow> bot_api \<Rightarrow> callback_query \<Rightarrow> bool \<Rightarrow> whisper \<Rightarrow> action list" where
  "finish_press env api callback is_recipient w =
     (let is_sender = (sender_id w = cb_user_id callback)
      in if \<not> is_recipient \<and> \<not> is_sender then [AnswerCallback NoAccess True]
         else present env api callback is_sender w)"

text \<open>
  A press suspended at line 538 holds its callback, the client, the id and the whisper
  dictionary it was given by \<^verbatim>\<open>get_whisper_by_id\<close>.
\<close>

record pending =
  pd_callback :: callback_query
  pd_api :: bot_api
  pd_whisper_id :: string
  pd_whisper :: whisper

datatype begun = Finished "action list" | Suspended pending

text \<open>
  Lines 499 to 537: the press up to the lookup of line 538, or to its end when that
  line is not reached.
\<close>

definition press_begin ::
  "collaborators \<Rightarrow> real \<Rightarrow> real \<Rightarrow> real \<Rightarrow> real \<Rightarrow> callback_query \<Rightarrow> bot_state
     \<Rightarrow> begun \<times> bot_state" where
  "press_begin env t1 t2 t3 t4 callback st =
     (case bot_instance env of
        None \<Rightarrow> (Finished [], st)
      | Some api \<Rightarrow>
          (case nonempty (cb_data callback) of
             None \<Rightarrow> (Finished [], st)
           | Some data \<Rightarrow>
               if \<not> startswith data ''whisper_view_'' then (Finished [], st)
               else
                 (let whisper_id = str_remove data ''whisper_view_'';
                      user = cb_user_id callback;
                      ((can_view, remaining), cds) =
                        check_view_cooldown t1 t2 user (view_cooldowns st)
                  in if \<not> can_view
                     then (Finished [AnswerCallback (PleaseWait remaining) True],
                           st\<lparr>view_cooldowns := cds\<rparr>)
                     else
                       (let (found, cache1) =
                              get_whisper_by_id t3 t4 whisper_id (whispers_cache st)
                        in case found of
                             None \<Rightarrow>
                               (Finished [AnswerCallback NotFoundOrExpired True],
                                \<lparr>whispers_cache = cache1, view_cooldowns = cds\<rparr>)
                           | Some w0 \<Rightarrow>
                               if recipient_id w0 = None \<and> recipient_username w0 \<noteq> []
                                  \<and> nonempty (cb_username callback) = None
                               then (Suspended
                                       \<lparr>pd_callback = callback, pd_api = api,
                                        pd_whisper_id = whisper_id, pd_whisper = w0\<rparr>,
                                     \<lparr>whispers_cache = cache1, view_cooldowns = cds\<rparr>)
                               else
                                 (let (is_recipient, w) = recipient_check env callback w0
                                  in (Finished (finish_press env api callback is_recipient w),
                                      \<lparr>whispers_cache = AList.update whisper_id w cache1,
                                       view_cooldowns = cds\<rparr>))))))"

text \<open>
  The state with suspended presses. A whisper dictionary deleted from the cache stays
  alive while a suspended press holds it; \<open>w_evicted\<close> keeps the dictionaries that
  were deleted, under their ids.
\<close>

record world =
  w_state :: bot_state
  w_evicted :: "string \<rightharpoonup> whisper"
  w_pending :: "pending list"

text \<open>
  The dictionary a suspended press holds, as it is now: the one in the cache under its
  id, or the deleted one.
\<close>

definition held_whisper :: "pending \<Rightarrow> world \<Rightarrow> whisper" where
  "held_whisper p wd =
     (case map_of (whispers_cache (w_state wd)) (pd_whisper_id p) of
        Some w \<Rightarrow> w
      | None \<Rightarrow>
          (case w_evicted wd (pd_whisper_id p) of
             Some w \<Rightarrow> w
           | None \<Rightarrow> pd_whisper p))"

text \<open>Line 546 on that dictionary.\<close>

definition assign_recipient :: "string \<Rightarrow> int \<Rightarrow> world \<Rightarrow> world" where
  "assign_recipient whisper_id user wd =
     (case map_of (whispers_cache (w_state wd)) whisper_id of
        Some w \<Rightarrow>
          wd\<lparr>w_state := (w_state wd)
                \<lparr>whispers_cache :=
                   AList.update whisper_id (w\<lparr>recipient_id := Some user\<rparr>)
                     (whispers_cache (w_state wd))\<rparr>\<rparr>
      | None \<Rightarrow>
          (case w_evicted wd whisper_id of
             Some w \<Rightarrow>
               wd\<lparr>w_evicted := (w_evicted wd)(whisper_id \<mapsto> w\<lparr>recipient_id := Some user\<rparr>)\<rparr>
           | None \<Rightarrow> wd))"

text \<open>Lines 538 to 540: the handle the database has for the requester, lower-cased.\<close>

definition looked_up_username :: "collaborators \<Rightarrow> int \<Rightarrow> string option" where
  "looked_up_username env user =
     (case db_get_user env user of
        Returns (Some row) \<Rightarrow> map_option lower (nonempty (ud_username row))
      | _ \<Rightarrow> None)"

text \<open>
  Lines 538 to 629: the press from the return of the lookup. The recipient handle is
  the local variable read at line 527; \<^verbatim>\<open>recipient_id\<close> is not read again
  before line 546.
\<close>

definition press_resume :: "collaborators \<Rightarrow> pending \<Rightarrow> world \<Rightarrow> action list \<times> world" where
  "press_resume env p wd =
     (let callback = pd_callback p;
          user = cb_user_id callback;
          user_username = looked_up_username env user;
          is_recipient =
            (case user_username of
               Some u \<Rightarrow> recipient_username (pd_whisper p) = u
             | None \<Rightarrow> False);
          wd1 = (if is_recipient then assign_recipient (pd_whisper_id p) user wd else wd);
          w = (if is_recipient then (held_whisper p wd)\<lparr>recipient_id := Some user\<rparr>
               else held_whisper p wd)
      in (finish_press env (pd_api p) callback is_recipient w, wd1))"

text \<open>
  After a step, the dictionaries that were in the cache before it and are not after
  it are remembered as deleted.
\<close>

definition note_evicted :: "cache \<Rightarrow> cache \<Rightarrow> (string \<rightharpoonup> whisper) \<Rightarrow> (string \<rightharpoonup> whisper)" where
  "note_evicted before after evicted =
     (\<lambda>i. case map_of after i of
            Some w \<Rightarrow> evicted i
          | None \<Rightarrow> (case map_of before i of Some w \<Rightarrow> Some w | None \<Rightarrow> evicted i))"

definition settle :: "world \<Rightarrow> bot_state \<Rightarrow> world" where
  "settle wd st =
     wd\<lparr>w_state := st,
        w_evicted := note_evicted (whispers_cache (w_state wd)) (whispers_cache st) (w_evicted wd)\<rparr>"

text \<open>
  \<^verbatim>\<open>uuid.uuid4()\<close> does not repeat an id: a creation under an id that is or
  was in use is not a step.
\<close>

fun is_fresh :: "op \<Rightarrow> world \<Rightarrow> bool" where
  "is_fresh (Create env now new_id sender recipient body) wd =
     (map_of (whispers_cache (w_state wd)) new_id = None \<and> w_evicted wd new_id = None)"
| "is_fresh _ wd = True"

fun answers :: "op \<Rightarrow> bot_state \<Rightarrow> action list" where
  "answers (Reveal env t1 t2 t3 t4 callback) st =
     fst (whisper_callback_handler env t1 t2 t3 t4 callback st)"
| "answers _ st = []"

text \<open>
  What can happen: an operation that runs without giving up control, the first part
  of a press, and the second part of the suspended press at a position of the list.
\<close>

datatype event =
    Atomic op
  | Begin collaborators real real real real callback_query
  | Resume nat collaborators

fun occur :: "event \<Rightarrow> world \<Rightarrow> action list \<times> world" where
  "occur (Atomic x) wd =
     (if is_fresh x wd then (answers x (w_state wd), settle wd (step x (w_state wd)))
      else ([], wd))"
| "occur (Begin env t1 t2 t3 t4 callback) wd =
     (case press_begin env t1 t2 t3 t4 callback (w_state wd) of
        (Finished acts, st) \<Rightarrow> (acts, settle wd st)
      | (Suspended p, st) \<Rightarrow> ([], (settle wd st)\<lparr>w_pending := w_pending wd @ [p]\<rparr>))"
| "occur (Resume i env) wd =
     (if i < length (w_pending wd)
      then press_resume env (w_pending wd ! i)
             (wd\<lparr>w_pending := take i (w_pending wd) @ drop (Suc i) (w_pending wd)\<rparr>)
      else ([], wd))"

primrec play :: "event list \<Rightarrow> world \<Rightarrow> action list list \<times> world" where
  "play [] wd = ([], wd)"
| "play (e # es) wd =
     (let (acts, wd1) = occur e wd; (rest, wd2) = play es wd1
      in (acts # rest, wd2))"

text \<open>
  A reveal whose requester presents a given handle for a given whisper.
\<close>

fun names :: "op \<Rightarrow> string \<Rightarrow> string \<Rightarrow> bool" where
  "names (Reveal env t1 t2 t3 t4 callback) whisper_id handle =
     (requester_username env callback = Some handle
      \<and> map_option (\<lambda>data. str_remove data ''whisper_view_'') (nonempty (cb_data callback))
          = Some whisper_id)"
| "names _ whisper_id handle = False"

subsection \<open>Example collaborators\<close>

text \<open>
  A database without rows and no client; a database that knows one user; a client
  that finds no chat and delivers every message.
\<close>

definition offline :: collaborators where
  "offline = \<lparr>db_get_user_by_username = (\<lambda>name. Returns None),
              db_get_user = (\<lambda>uid. Returns None),
              bot_instance = None\<rparr>"

definition registered :: "string \<Rightarrow> int \<Rightarrow> bool \<Rightarrow> collaborators" where
  "registered name uid is_bot =
     \<lparr>db_get_user_by_username =
        (\<lambda>n. if n = name
             then Returns (Some \<lparr>ud_user_id = uid, ud_is_bot = is_bot,
                                  ud_username = Some name, ud_first_name = None\<rparr>)
             else Returns None),
      db_get_user =
        (\<lambda>i. if i = uid
             then Returns (Some \<lparr>ud_user_id = uid, ud_is_bot = is_bot,
                                  ud_username = Some name, ud_first_name = None\<rparr>)
             else Returns None),
      bot_instance = None\<rparr>"

definition delivering :: bot_api where
  "delivering = \<lparr>get_chat = (\<lambda>name. Raises), send_message = (\<lambda>target m. True)\<rparr>"

definition online :: collaborators where
  "online = \<lparr>db_get_user_by_username = (\<lambda>name. Returns None),
             db_get_user = (\<lambda>uid. Returns None),
             bot_instance = Some delivering\<rparr>"

text \<open>
  A database that has one handle for the listed users, with a client; a press of the reveal
  button of the whisper \<open>w1\<close>; a state that holds one whisper for the handle
  \<open>bob\<close> without a recipient id.
\<close>

definition knowing :: "string \<Rightarrow> int list \<Rightarrow> collaborators" where
  "knowing name uids =
     \<lparr>db_get_user_by_username = (\<lambda>n. Returns None),
      db_get_user =
        (\<lambda>i. if i \<in> set uids
             then Returns (Some \<lparr>ud_user_id = i, ud_is_bot = False,
                                  ud_username = Some name, ud_first_name = None\<rparr>)
             else Returns None),
      bot_instance = Some delivering\<rparr>"

definition press :: "int \<Rightarrow> string option \<Rightarrow> callback_query" where
  "press user name =
     \<lparr>cb_data = Some ''whisper_view_w1'', cb_user_id = user, cb_username = name,
      cb_chat_id = None\<rparr>"

definition one_unbound :: world where
  "one_unbound =
     \<lparr>w_state =
        \<lparr>whispers_cache =
           [(''w1'', \<lparr>sender_id = 1, recipient_id = None, recipient_username = ''bob'',
                      message_text = ''hi'', created_at = 0, expires_at = 10800\<rparr>)],
         view_cooldowns = Map.empty\<rparr>,
      w_evicted = Map.empty, w_pending = []\<rparr>"

section \<open>Properties of the parser\<close>

subsection \<open>Characters and strings\<close>

lemma of_char_lower_char:
  "(of_char (lower_char c) :: nat) =
     (let n = of_char c in if (65 \<le> n \<and> n \<le> 90) \<or> (192 \<le> n \<and> n \<le> 222 \<and> n \<noteq> 215) then n + 32 else n)"
  by (simp add: lower_char_def Let_def)

lemma isspace_lower_char: "isspace (lower_char c) = isspace c"
  unfolding isspace_def of_char_lower_char by (auto simp: Let_def)

lemma lower_char_idem: "lower_char (lower_char c) = lower_char c"
proof -
  have "(of_char (lower_char (lower_char c)) :: nat) = of_char (lower_char c)"
    unfolding of_char_lower_char [of "lower_char c"] 
    by (auto simp: Let_def of_char_lower_char)
  then show ?thesis by (metis of_char_eq_iff)
qed

lemma lower_char_at: "lower_char c = CHR ''@'' \<longleftrightarrow> c = CHR ''@''"
proof -
  have "(of_char (lower_char c) :: nat) = 64 \<longleftrightarrow> (of_char c :: nat) = 64"
    unfolding of_char_lower_char by (auto simp: Let_def)
  moreover have "(of_char (CHR ''@'') :: nat) = 64" by simp
  ultimately show ?thesis by (metis of_char_eq_iff)
qed

lemma lower_append: "lower (a @ b) = lower a @ lower b"
  by (simp add: lower_def)

lemma length_lower: "length (lower s) = length s"
  by (simp add: lower_def)

lemma lower_idem: "lower (lower s) = lower s"
  by (simp add: lower_def lower_char_idem)

lemma rstrip_noop: "s \<noteq> [] \<Longrightarrow> \<not> P (last s) \<Longrightarrow> rev (dropWhile P (rev s)) = s"
  by (cases s rule: rev_cases) auto

lemma last_dropWhile: "dropWhile P s \<noteq> [] \<Longrightarrow> last (dropWhile P s) = last s"
  by (metis takeWhile_dropWhile_id last_appendR)

lemma strip_lstrip:
  assumes "s \<noteq> []" and "\<not> isspace (last s)"
  shows "strip s = dropWhile isspace s"
proof -
  have ne: "dropWhile isspace s \<noteq> []"
    using assms by (auto simp: dropWhile_eq_Nil_conv)
  then have "\<not> isspace (last (dropWhile isspace s))"
    using assms by (simp add: last_dropWhile)
  with ne show ?thesis unfolding strip_def by (rule rstrip_noop)
qed

lemma strip_id:
  assumes "s \<noteq> []" and "\<not> isspace (hd s)" and "\<not> isspace (last s)"
  shows "strip s = s"
proof -
  have "dropWhile isspace s = s" using assms(1,2) by (cases s) auto
  with strip_lstrip [OF assms(1,3)] show ?thesis by simp
qed

lemma strip_Nil_iff: "strip s = [] \<longleftrightarrow> (\<forall>c\<in>set s. isspace c)"
proof
  assume "strip s = []"
  then have "dropWhile isspace (rev (dropWhile isspace s)) = []" by (simp add: strip_def)
  then have "\<forall>c\<in>set (dropWhile isspace s). isspace c" by (simp add: dropWhile_eq_Nil_conv)
  then have "dropWhile isspace s = []"
    by (metis hd_dropWhile list.set_sel(1))
  then show "\<forall>c\<in>set s. isspace c" by (simp add: dropWhile_eq_Nil_conv)
next
  assume "\<forall>c\<in>set s. isspace c"
  then have d: "dropWhile isspace s = []" by (simp add: dropWhile_eq_Nil_conv)
  show "strip s = []" unfolding strip_def d by simp
qed

lemma strip_space_suffix:
  assumes "\<exists>c\<in>set t. \<not> isspace c"
  shows "strip (t @ '' '') = strip t"
proof -
  have sp: "isspace CHR '' ''" by (simp add: isspace_def)
  have "dropWhile isspace (t @ '' '') = dropWhile isspace t @ '' ''"
    using assms by (simp add: dropWhile_append)
  then show ?thesis using sp by (simp add: strip_def)
qed

lemma lstrip_space_prefix: "dropWhile isspace ('' '' @ s) = dropWhile isspace s"
  by (simp add: isspace_def)

lemma rfind_last_at:
  assumes "c \<notin> set h"
  shows "rfind (x @ c # h) c = int (length x)"
proof -
  have "takeWhile (\<lambda>y. y \<noteq> c) (rev h @ c # rev x) = rev h"
    using assms by (auto simp: takeWhile_tail)
  then show ?thesis by (simp add: rfind_def)
qed

lemma split_ws_word:
  assumes "h \<noteq> []" and "\<forall>c\<in>set h. \<not> isspace c"
  shows "split_ws h = [h]"
proof -
  have a: "dropWhile isspace h = h" using assms by (cases h) auto
  have b: "takeWhile (\<lambda>c. \<not> isspace c) h = h" using assms by (simp add: takeWhile_eq_all_conv)
  have c: "dropWhile (\<lambda>c. \<not> isspace c) h = []" using assms by (simp add: dropWhile_eq_Nil_conv)
  have d: "split_ws [] = []" by (simp add: split_ws.simps [of "[]"])
  show ?thesis using assms(1) by (simp add: split_ws.simps [of h] a b c d)
qed

lemma take_int_length: "take (nat (int (length x))) (x @ y) = x"
  by simp

lemma drop_int_length: "drop (nat (int (length x) + 1)) (x @ c # h) = h"
proof -
  have e: "nat (int (length x) + 1) = Suc (length x)" by simp
  show ?thesis unfolding e by simp
qed

lemma parse_remaining_roundtrip:
  assumes T: "CHR ''@'' \<notin> set t" "strip t \<noteq> []"
    and H: "h \<noteq> []" "CHR ''@'' \<notin> set h" "\<forall>c\<in>set h. \<not> isspace c"
           "last h \<notin> set ''.,!?;:''"
  shows "parse_remaining (t @ '' @'' @ h) = Some (strip t, h)"
proof -
  let ?x = "t @ '' ''"
  have r: "t @ '' @'' @ h = ?x @ CHR ''@'' # h" by simp
  have idx: "rfind (?x @ CHR ''@'' # h) CHR ''@'' = int (length ?x)"
    using H(2) by (rule rfind_last_at)
  have hs: "\<not> isspace (hd h)" "\<not> isspace (last h)" using H(1,3) by auto
  have sh: "strip h = h" using H(1) hs by (rule strip_id)
  have wh: "split_ws h = [h]" using H(1,3) by (rule split_ws_word)
  have rh: "rstrip_chars h ''.,!?;:'' = h"
    unfolding rstrip_chars_def using H(1,4) by (intro rstrip_noop) auto
  have ex: "\<exists>c\<in>set t. \<not> isspace c" using T(2) by (simp add: strip_Nil_iff)
  have st: "strip ?x = strip t" using ex by (rule strip_space_suffix)
  have tk: "take (nat (int (length ?x))) (?x @ CHR ''@'' # h) = ?x"
    by (rule take_int_length)
  have dr: "drop (nat (int (length ?x) + 1)) (?x @ CHR ''@'' # h) = h"
    by (rule drop_int_length)
  show ?thesis
    unfolding r parse_remaining_def Let_def idx tk dr sh wh rh st
    using H(1) T(2) by (simp add: rh)
qed

lemma no_shift_prefix: "prefix (a # xs) (xs @ c # ys) \<Longrightarrow> a = c"
  by (induction xs arbitrary: a) auto

lemma strip_rest:
  assumes "\<exists>c\<in>set t. \<not> isspace c" and "h \<noteq> []" and "\<not> isspace (last h)"
  shows "strip ('' '' @ t @ '' @'' @ h) = dropWhile isspace t @ '' @'' @ h"
proof -
  have "strip ('' '' @ t @ '' @'' @ h) = dropWhile isspace ('' '' @ t @ '' @'' @ h)"
    using assms(2,3) by (intro strip_lstrip) auto
  also have "\<dots> = dropWhile isspace (t @ '' @'' @ h)"
    by (rule lstrip_space_prefix)
  also have "\<dots> = dropWhile isspace t @ '' @'' @ h"
    using assms(1) by (auto simp: dropWhile_append)
  finally show ?thesis .
qed

lemma remaining_with_at:
  assumes len: "length p = Suc (length b)"
    and low: "lower p = ''@'' @ lower b"
    and sq: "strip (p @ rest) = p @ rest"
  shows "remaining_after_mention (p @ rest) b = Some (strip rest)"
proof -
  have "startswith (lower (p @ rest)) (''@'' @ lower b)"
    by (simp add: startswith_def lower_append low)
  moreover have "drop (Suc (length b)) (p @ rest) = rest"
    using len by simp
  ultimately show ?thesis
    by (simp add: remaining_after_mention_def sq Let_def length_lower)
qed

lemma remaining_without_at:
  assumes len: "length p = length b"
    and low: "lower p = lower b"
    and sq: "strip (p @ CHR '' '' # rest) = p @ CHR '' '' # rest"
    and ne: "p \<noteq> []"
  shows "remaining_after_mention (p @ CHR '' '' # rest) b = Some (strip (CHR '' '' # rest))"
proof -
  have sp: "lower_char CHR '' '' = CHR '' ''" by (simp add: lower_char_def)
  have "\<not> prefix (CHR ''@'' # lower b) (lower b @ CHR '' '' # lower rest)"
    using no_shift_prefix [of "CHR ''@''" "lower b" "CHR '' ''" "lower rest"] by auto
  then have no: "\<not> startswith (lower (p @ CHR '' '' # rest)) (''@'' @ lower b)"
    by (simp add: startswith_def lower_append low) (simp add: lower_def sp)
  have yes: "startswith (lower (p @ CHR '' '' # rest)) (lower b)"
    by (simp add: startswith_def lower_append low)
  have "drop (length b) (p @ CHR '' '' # rest) = CHR '' '' # rest"
    using len by simp
  then show ?thesis
    using no yes by (simp add: remaining_after_mention_def sq Let_def length_lower)
qed

lemma strip_lstripped: "strip (dropWhile isspace t) = strip t"
  by (simp add: strip_def)

lemma remaining_of_addressed:
  assumes P: "p \<in> set (mention_forms b)"
    and B: "b = [] \<or> \<not> isspace (hd b)"
    and T: "CHR ''@'' \<notin> set t" "strip t \<noteq> []"
    and H: "h \<noteq> []" "\<forall>c\<in>set h. \<not> isspace c"
  shows "remaining_after_mention (p @ '' '' @ t @ '' @'' @ h) b
           = Some (dropWhile isspace t @ '' @'' @ h)"
proof -
  let ?rest = "'' '' @ t @ '' @'' @ h"
  let ?L = "dropWhile isspace t"
  have ex: "\<exists>c\<in>set t. \<not> isspace c" using T(2) by (simp add: strip_Nil_iff)
  have lh: "\<not> isspace (last h)" using H by auto
  have R: "strip ?rest = ?L @ '' @'' @ h" using ex H(1) lh by (rule strip_rest)
  have Lne: "?L \<noteq> []" using ex by (auto simp: dropWhile_eq_Nil_conv)
  have hdL: "\<not> isspace (hd ?L)" using Lne by (rule hd_dropWhile)
  have hdLat: "hd ?L \<noteq> CHR ''@''"
    using Lne T(1) by (metis list.set_sel(1) set_dropWhileD)
  show ?thesis
  proof (cases "p = []")
    case True
    with P have b: "b = []" by (auto simp: mention_forms_def lower_def)
    let ?r = "?L @ '' @'' @ h"
    have q: "strip (p @ ?rest) = ?r" using True R by simp
    have sr: "strip ?r = ?r" using Lne hdL lh H(1) by (intro strip_id) auto
    obtain x xs where L: "?L = x # xs" using Lne by (cases ?L) auto
    with hdLat have "lower_char x \<noteq> CHR ''@''" by (simp add: lower_char_at)
    then have no: "\<not> startswith (lower ?r) ''@''"
      by (simp add: startswith_def L lower_def)
    show ?thesis
      unfolding remaining_after_mention_def q Let_def b
      using no sr by (simp add: startswith_def lower_def)
  next
    case False
    have lowat: "lower (CHR ''@'' # x) = CHR ''@'' # lower x" for x
      by (simp add: lower_def lower_char_def)
    from P consider (plain) "p = b \<or> p = lower b" | (at) "p = ''@'' @ b \<or> p = ''@'' @ lower b"
      by (auto simp: mention_forms_def)
    then show ?thesis
    proof cases
      case plain
      then have bne: "b \<noteq> []" using False by (auto simp: lower_def)
      with B have "\<not> isspace (hd b)" by simp
      then have hdp: "\<not> isspace (hd p)"
        using plain bne by (auto simp: lower_def hd_map isspace_lower_char)
      have sq: "strip (p @ CHR '' '' # (t @ '' @'' @ h)) = p @ CHR '' '' # (t @ '' @'' @ h)"
        using False hdp lh H(1) by (intro strip_id) auto
      have len: "length p = length b" using plain by (auto simp: length_lower)
      have low: "lower p = lower b" using plain by (auto simp: lower_idem)
      have "remaining_after_mention (p @ CHR '' '' # (t @ '' @'' @ h)) b
              = Some (strip (CHR '' '' # (t @ '' @'' @ h)))"
        using len low sq False by (rule remaining_without_at)
      then show ?thesis using R by simp
    next
      case at
      then have hdp: "\<not> isspace (hd p)" by (auto simp: isspace_def)
      have sq: "strip (p @ ?rest) = p @ ?rest"
        using False hdp lh H(1) by (intro strip_id) auto
      have len: "length p = Suc (length b)" using at by (auto simp: length_lower)
      have low: "lower p = ''@'' @ lower b"
        using at by (auto simp: lowat lower_idem)
      have "remaining_after_mention (p @ ?rest) b = Some (strip ?rest)"
        using len low sq by (rule remaining_with_at)
      then show ?thesis using R by simp
    qed
  qed
qed

lemma rstrip_chars_Nil_iff: "rstrip_chars s cs = [] \<longleftrightarrow> (\<forall>c\<in>set s. c \<in> set cs)"
  by (simp add: rstrip_chars_def dropWhile_eq_Nil_conv)

lemma punctuation_not_space: "c \<in> set ''.,!?;:'' \<Longrightarrow> \<not> isspace c"
  by (auto simp: isspace_def)

lemma first_word_all_punctuation:
  assumes "rstrip_chars s ''.,!?;:'' = []"
  shows "(case split_ws s of w # _ \<Rightarrow> rstrip_chars w ''.,!?;:''
          | [] \<Rightarrow> rstrip_chars s ''.,!?;:'') = []"
proof (cases "s = []")
  case True
  then show ?thesis by (simp add: split_ws.simps [of "[]"] rstrip_chars_def)
next
  case False
  have "\<forall>c\<in>set s. c \<in> set ''.,!?;:''"
    using assms by (simp only: rstrip_chars_Nil_iff)
  then have "\<forall>c\<in>set s. \<not> isspace c" using punctuation_not_space by blast
  with False have "split_ws s = [s]" by (rule split_ws_word)
  then show ?thesis using assms by simp
qed

lemma parse_remaining_none:
  assumes "CHR ''@'' \<notin> set r
         \<or> rstrip_chars (strip (drop (nat (rfind r CHR ''@'' + 1)) r)) ''.,!?;:'' = []
         \<or> strip (take (nat (rfind r CHR ''@'')) r) = []"
  shows "parse_remaining r = None"
  using assms
proof (elim disjE)
  assume "CHR ''@'' \<notin> set r"
  then show ?thesis by (simp add: parse_remaining_def rfind_def)
next
  assume "rstrip_chars (strip (drop (nat (rfind r CHR ''@'' + 1)) r)) ''.,!?;:'' = []"
  then have "(case split_ws (strip (drop (nat (rfind r CHR ''@'' + 1)) r)) of
                w # _ \<Rightarrow> rstrip_chars w ''.,!?;:''
              | [] \<Rightarrow> rstrip_chars (strip (drop (nat (rfind r CHR ''@'' + 1)) r)) ''.,!?;:'') = []"
    by (rule first_word_all_punctuation)
  then show ?thesis by (simp add: parse_remaining_def Let_def)
next
  assume "strip (take (nat (rfind r CHR ''@'')) r) = []"
  then show ?thesis by (simp add: parse_remaining_def Let_def)
qed

subsection \<open>Addressed queries\<close>

text \<open>
  C5, as the code has it. For a text \<open>t\<close> without @ that is not all whitespace, a
  handle \<open>h\<close> that is one word without @ and without trailing punctuation, a bot
  handle \<open>b\<close> that does not begin with whitespace and each of the four forms \<open>p\<close> of
  its mention, parsing \<open>p\<close>, a space, \<open>t\<close>, a space, @ and \<open>h\<close> yields the trimmed
  text and the handle. The text comes back unchanged exactly when it has no
  whitespace at either end.
\<close>

theorem parse_roundtrip_stripped:
  assumes P: "p \<in> set (mention_forms b)"
    and B: "b = [] \<or> \<not> isspace (hd b)"
    and T: "CHR ''@'' \<notin> set t" "strip t \<noteq> []"
    and H: "h \<noteq> []" "CHR ''@'' \<notin> set h" "no_whitespace h"
           "last h \<notin> set ''.,!?;:''"
  shows "parse_whisper_query (p @ '' '' @ t @ '' @'' @ h) b = Some (strip t, h)"
proof -
  let ?L = "dropWhile isspace t"
  have ws: "\<forall>c\<in>set h. \<not> isspace c" using H(3) by (simp add: no_whitespace_def)
  have rem: "remaining_after_mention (p @ '' '' @ t @ '' @'' @ h) b = Some (?L @ '' @'' @ h)"
    using P B T H(1) ws by (rule remaining_of_addressed)
  have "CHR ''@'' \<notin> set ?L" using T(1) by (auto dest: set_dropWhileD)
  moreover have "strip ?L \<noteq> []" using T(2) by (simp add: strip_lstripped)
  ultimately have "parse_remaining (?L @ '' @'' @ h) = Some (strip ?L, h)"
    using H(1,2) ws H(4) by (rule parse_remaining_roundtrip)
  then show ?thesis
    using rem by (simp add: parse_whisper_query_def strip_lstripped)
qed

theorem parse_roundtrip_stripped_witness:
  "''@mybot'' \<in> set (mention_forms ''MyBot'')
   \<and> CHR ''@'' \<notin> set '' hello there'' \<and> strip '' hello there'' \<noteq> []
   \<and> no_whitespace ''bob'' \<and> last ''bob'' \<notin> set ''.,!?;:''
   \<and> parse_whisper_query (''@mybot'' @ '' '' @ '' hello there'' @ '' @'' @ ''bob'') ''MyBot''
       = Some (''hello there'', ''bob'')"
proof -
  have p: "''@mybot'' \<in> set (mention_forms ''MyBot'')"
    by code_simp
  have b: "''MyBot'' = [] \<or> \<not> isspace (hd ''MyBot'')" by (simp add: isspace_def)
  have t: "CHR ''@'' \<notin> set '' hello there''" by simp
  have s: "strip '' hello there'' = ''hello there''" by (simp add: strip_def isspace_def)
  have w: "no_whitespace ''bob''" by (simp add: no_whitespace_def isspace_def)
  have l: "last ''bob'' \<notin> set ''.,!?;:''" by simp
  have "parse_whisper_query (''@mybot'' @ '' '' @ '' hello there'' @ '' @'' @ ''bob'') ''MyBot''
          = Some (strip '' hello there'', ''bob'')"
    using p b t _ _ _ w l by (rule parse_roundtrip_stripped) (simp_all add: s)
  with p t s w l show ?thesis by simp
qed

text \<open>
  The claim as written fails: a text with whitespace at an end comes back trimmed, the
  last @ inside a handle splits it, and a bot handle that begins with whitespace is
  not recognised without the @.
\<close>

theorem parse_roundtrip_counterexample:
  "parse_whisper_query (''@mybot'' @ '' '' @ '' hi'' @ '' @'' @ ''bob'') ''mybot''
     = Some (''hi'', ''bob'')
   \<and> parse_whisper_query (''@mybot'' @ '' '' @ '' hi'' @ '' @'' @ ''bob'') ''mybot''
     \<noteq> Some ('' hi'', ''bob'')
   \<and> parse_whisper_query (''@mybot'' @ '' '' @ ''hi'' @ '' @'' @ ''a@b'') ''mybot''
     = Some (''hi @a'', ''b'')
   \<and> parse_whisper_query ('' bot'' @ '' '' @ ''hi'' @ '' @'' @ ''bob'') '' bot'' = None"
  by code_simp

subsection \<open>Queries without a recipient or a text\<close>

text \<open>
  C6. Once the mention is removed, the parser returns nothing when the remainder has
  no @, when what follows the last @ is empty after trimming and removing trailing
  punctuation, or when what precedes it is empty after trimming.
\<close>

theorem parse_none_cases:
  assumes "remaining_after_mention q b = Some r"
    and "CHR ''@'' \<notin> set r
         \<or> rstrip_chars (strip (drop (nat (rfind r CHR ''@'' + 1)) r)) ''.,!?;:'' = []
         \<or> strip (take (nat (rfind r CHR ''@'')) r) = []"
  shows "parse_whisper_query q b = None"
  using assms(1) parse_remaining_none [OF assms(2)]
  by (simp add: parse_whisper_query_def)

theorem parse_none_cases_witness:
  "remaining_after_mention ''@mybot hello @ ...'' ''mybot'' = Some ''hello @ ...''
   \<and> rstrip_chars (strip (drop (nat (rfind ''hello @ ...'' CHR ''@'' + 1)) ''hello @ ...''))
        ''.,!?;:'' = []
   \<and> parse_whisper_query ''@mybot hello @ ...'' ''mybot'' = None"
proof -
  have r: "remaining_after_mention ''@mybot hello @ ...'' ''mybot'' = Some ''hello @ ...''"
    by code_simp
  have e: "rstrip_chars (strip (drop (nat (rfind ''hello @ ...'' CHR ''@'' + 1)) ''hello @ ...''))
             ''.,!?;:'' = []"
    by (simp add: rfind_def strip_def isspace_def rstrip_chars_def)
  from e have "CHR ''@'' \<notin> set ''hello @ ...''
      \<or> rstrip_chars (strip (drop (nat (rfind ''hello @ ...'' CHR ''@'' + 1)) ''hello @ ...''))
           ''.,!?;:'' = []
      \<or> strip (take (nat (rfind ''hello @ ...'' CHR ''@'')) ''hello @ ...'') = []"
    by blast
  with r have "parse_whisper_query ''@mybot hello @ ...'' ''mybot'' = None"
    by (rule parse_none_cases)
  with r e show ?thesis by blast
qed

section \<open>Properties of the store\<close>

subsection \<open>The sweep\<close>

lemma fold_delete_filter: "fold AList.delete ks al = filter (\<lambda>p. fst p \<notin> set ks) al"
proof (induction ks arbitrary: al)
  case Nil
  then show ?case by simp
next
  case (Cons k ks)
  have "AList.delete k al = filter (\<lambda>p. fst p \<noteq> k) al"
    by (simp add: AList.delete_eq case_prod_beta' eq_commute)
  then show ?case by (simp add: Cons.IH conj_commute)
qed

lemma cleanup_filter:
  assumes "distinct (map fst c)"
  shows "snd (cleanup_expired_whispers t c) = filter (\<lambda>p. \<not> expires_at (snd p) < t) c"
proof -
  let ?ids = "map fst (filter (\<lambda>(i, w). expires_at w < t) c)"
  have "fst p \<in> set ?ids \<longleftrightarrow> expires_at (snd p) < t" if "p \<in> set c" for p
  proof
    assume "fst p \<in> set ?ids"
    then obtain q where q: "q \<in> set c" "expires_at (snd q) < t" "fst q = fst p"
      by (auto simp: case_prod_beta')
    with assms that have "q = p"
      by (metis eq_key_imp_eq_value prod.collapse)
    with q show "expires_at (snd p) < t" by simp
  next
    assume "expires_at (snd p) < t"
    with that show "fst p \<in> set ?ids" by (force simp: case_prod_beta')
  qed
  then have "filter (\<lambda>p. fst p \<notin> set ?ids) c = filter (\<lambda>p. \<not> expires_at (snd p) < t) c"
    by (intro filter_cong) auto
  then show ?thesis
    by (simp add: cleanup_expired_whispers_def fold_delete_filter)
qed

lemma distinct_filter_keys: "distinct (map fst c) \<Longrightarrow> distinct (map fst (filter P c))"
  by (rule distinct_map_filter)

lemma map_of_filter_distinct:
  "distinct (map fst c) \<Longrightarrow>
   map_of (filter P c) k = (case map_of c k of None \<Rightarrow> None | Some v \<Rightarrow> if P (k, v) then Some v else None)"
proof (induction c)
  case Nil
  then show ?case by simp
next
  case (Cons p c)
  obtain a b where p: "p = (a, b)" by (cases p)
  from Cons.prems p have notin: "a \<notin> fst ` set c" by simp
  then have "map_of c a = None" by (simp add: map_of_eq_None_iff)
  with Cons p show ?case by (auto split: option.splits)
qed

lemma map_of_cleanup:
  assumes "distinct (map fst c)"
  shows "map_of (snd (cleanup_expired_whispers t c)) k =
           (case map_of c k of None \<Rightarrow> None
            | Some w \<Rightarrow> if expires_at w < t then None else Some w)"
  by (simp add: cleanup_filter [OF assms] map_of_filter_distinct [OF assms] split: option.splits)

lemma distinct_cleanup:
  "distinct (map fst c) \<Longrightarrow> distinct (map fst (snd (cleanup_expired_whispers t c)))"
  by (simp add: cleanup_filter distinct_map_filter)

subsection \<open>Lifetime of a whisper\<close>

lemma create_whisper_stored:
  assumes "create_whisper env t0 new_id sender recipient text c = (Some wid, c')"
  shows "wid = new_id \<and> length text \<le> 1000 \<and>
         (\<exists>rid. c' = AList.update new_id
            \<lparr>sender_id = sender, recipient_id = rid, recipient_username = lower recipient,
             message_text = text, created_at = t0, expires_at = t0 + 3 * 3600\<rparr> c)"
  using assms
  by (auto simp: create_whisper_def WHISPER_MAX_LENGTH_def WHISPER_EXPIRY_HOURS_def
           split: if_splits lookup.splits)






subsection \<open>Refusals of a creation\<close>

lemma self_check_None: "self_check sender None = Recipient None"
  by (simp add: self_check_def truthy_id_def)

lemma lookup_recipient_resolve:
  "lookup_recipient env sender recipient =
     (case resolve env recipient of
        Unresolved \<Rightarrow> Recipient None
      | ResolvedTo i b \<Rightarrow> if b then Refused else self_check sender (Some i))"
proof (cases "db_get_user_by_username env recipient")
  case Raises
  then show ?thesis
    by (simp add: lookup_recipient_def resolve_def find_user_data_def)
next
  case first: (Returns r)
  show ?thesis
  proof (cases r)
    case (Some user)
    with first show ?thesis
      by (simp add: lookup_recipient_def resolve_def find_user_data_def)
  next
    case None
    note miss = first [unfolded None]
    show ?thesis
    proof (cases "db_get_user_by_username env (lower recipient)")
      case Raises
      with miss show ?thesis
        by (simp add: lookup_recipient_def resolve_def find_user_data_def)
    next
      case second: (Returns r2)
      show ?thesis
      proof (cases r2)
        case (Some user)
        with miss second show ?thesis
          by (simp add: lookup_recipient_def resolve_def find_user_data_def)
      next
        case None
        note miss2 = second [unfolded None]
        show ?thesis
        proof (cases "bot_instance env")
          case None
          with miss miss2 show ?thesis
            by (simp add: lookup_recipient_def resolve_def find_user_data_def self_check_None)
        next
          case (Some api)
          with miss miss2 show ?thesis
            by (cases "get_chat api (''@'' @ recipient)")
               (simp_all add: lookup_recipient_def resolve_def find_user_data_def
                  self_check_None)
        qed
      qed
    qed
  qed
qed

text \<open>
  C2. For a sender whose id is not zero (line 146 tests the resolved id by its truth
  value), a creation returns no id exactly when the text is longer than 1000, or the
  handle resolves to the sender, or it resolves to a bot; a refused creation leaves
  the cache as it was; and with a text of at most 1000 and a handle that does not
  resolve (a miss or a lookup that raises) the whisper is stored without a recipient
  id.
\<close>

theorem create_fails_exactly:
  assumes "sender \<noteq> 0"
  shows "(fst (create_whisper env now new_id sender recipient text c) = None
            \<longleftrightarrow> length text > 1000
                \<or> resolves_to_id (resolve env recipient) sender
                \<or> resolves_to_bot (resolve env recipient))
         \<and> (fst (create_whisper env now new_id sender recipient text c) = None
               \<longrightarrow> snd (create_whisper env now new_id sender recipient text c) = c)
         \<and> (length text \<le> 1000 \<and> resolve env recipient = Unresolved
               \<longrightarrow> create_whisper env now new_id sender recipient text c =
                   (Some new_id,
                    AList.update new_id
                      \<lparr>sender_id = sender, recipient_id = None,
                       recipient_username = lower recipient, message_text = text,
                       created_at = now, expires_at = now + 3 * 3600\<rparr> c))"
proof (cases "resolve env recipient")
  case Unresolved
  then show ?thesis
    by (simp add: create_whisper_def lookup_recipient_resolve
                  WHISPER_MAX_LENGTH_def WHISPER_EXPIRY_HOURS_def)
next
  case (ResolvedTo i b)
  then show ?thesis
    using assms
    by (simp add: create_whisper_def lookup_recipient_resolve self_check_def truthy_id_def
                  WHISPER_MAX_LENGTH_def)
qed

theorem create_fails_exactly_witness:
  "(1::int) \<noteq> 0
   \<and> fst (create_whisper offline 0 ''w1'' 1 ''Bob'' (replicate 1001 CHR ''a'') []) = None
   \<and> fst (create_whisper (registered ''bob'' 1 False) 0 ''w1'' 1 ''Bob'' ''hi'' []) = None
   \<and> fst (create_whisper (registered ''bob'' 2 True) 0 ''w1'' 1 ''Bob'' ''hi'' []) = None
   \<and> resolve offline ''Bob'' = Unresolved
   \<and> create_whisper offline 0 ''w1'' 1 ''Bob'' (replicate 1000 CHR ''a'') [] =
       (Some ''w1'',
        [(''w1'', \<lparr>sender_id = 1, recipient_id = None, recipient_username = ''bob'',
                    message_text = replicate 1000 CHR ''a'', created_at = 0,
                    expires_at = 10800\<rparr>)])"
proof -
  have one: "(1::int) \<noteq> 0" by simp
  have low: "lower ''Bob'' = ''bob''" by code_simp
  have off: "resolve offline ''Bob'' = Unresolved"
    by (simp add: resolve_def offline_def)
  have self: "resolve (registered ''bob'' 1 False) ''Bob'' = ResolvedTo 1 False"
    by (simp add: resolve_def registered_def low)
  have robot: "resolve (registered ''bob'' 2 True) ''Bob'' = ResolvedTo 2 True"
    by (simp add: resolve_def registered_def low)
  from create_fails_exactly [OF one, of offline 0 "''w1''" "''Bob''" "replicate 1001 CHR ''a''" "[]"]
  have a: "fst (create_whisper offline 0 ''w1'' 1 ''Bob'' (replicate 1001 CHR ''a'') []) = None"
    by simp
  from create_fails_exactly [OF one, of "registered ''bob'' 1 False" 0 "''w1''" "''Bob''" "''hi''" "[]"]
  have b: "fst (create_whisper (registered ''bob'' 1 False) 0 ''w1'' 1 ''Bob'' ''hi'' []) = None"
    by (simp add: self)
  from create_fails_exactly [OF one, of "registered ''bob'' 2 True" 0 "''w1''" "''Bob''" "''hi''" "[]"]
  have c: "fst (create_whisper (registered ''bob'' 2 True) 0 ''w1'' 1 ''Bob'' ''hi'' []) = None"
    by (simp add: robot)
  from create_fails_exactly [OF one, of offline 0 "''w1''" "''Bob''" "replicate 1000 CHR ''a''" "[]"]
  have d: "create_whisper offline 0 ''w1'' 1 ''Bob'' (replicate 1000 CHR ''a'') [] =
       (Some ''w1'',
        [(''w1'', \<lparr>sender_id = 1, recipient_id = None, recipient_username = ''bob'',
                    message_text = replicate 1000 CHR ''a'', created_at = 0,
                    expires_at = 10800\<rparr>)])"
    by (simp add: off low)
  from one a b c off d show ?thesis by blast
qed

subsection \<open>The cooldown\<close>




subsection \<open>The whispers of a user\<close>

text \<open>
  C7. For a cache with distinct keys, \<^verbatim>\<open>get_whispers_for_user\<close> returns, each
  once, the entries that survive the sweep and expire after the current time, and
  whose recipient id is the user or, when a handle is given and not empty, whose
  recipient id is absent and whose recipient handle is the lower-cased handle; the
  list is in descending order of creation time.
\<close>

theorem whispers_for_user_exact:
  assumes "distinct (map fst c)"
  shows "mset (fst (get_whispers_for_user t1 t2 u name c)) =
           filter_mset
             (\<lambda>(i, w). \<not> expires_at w < t1 \<and> t2 < expires_at w \<and>
                (recipient_id w = Some u \<or>
                 (recipient_id w = None \<and>
                  (\<exists>h. nonempty name = Some h \<and> recipient_username w = lower h))))
             (mset c)
         \<and> sorted_wrt (\<lambda>a b. created_at (snd b) \<le> created_at (snd a))
              (fst (get_whispers_for_user t1 t2 u name c))"
proof -
  let ?key = "\<lambda>(i :: string, w). - created_at w"
  let ?sel = "\<lambda>(i :: string, w). \<not> expires_at w \<le> t2 \<and>
                (recipient_id w = Some u \<or>
                 (recipient_id w = None \<and>
                  (case map_option lower (nonempty name) of
                     Some x \<Rightarrow> recipient_username w = x | None \<Rightarrow> False)))"
  let ?live = "filter (\<lambda>p. \<not> expires_at (snd p) < t1) c"
  have res: "fst (get_whispers_for_user t1 t2 u name c) = sort_key ?key (filter ?sel ?live)"
    by (simp add: get_whispers_for_user_def Let_def cleanup_filter [OF assms])
  have "mset (sort_key ?key (filter ?sel ?live)) = filter_mset ?sel (filter_mset (\<lambda>p. \<not> expires_at (snd p) < t1) (mset c))"
    by (simp only: mset_sort mset_filter)
  also have "\<dots> = filter_mset
             (\<lambda>(i, w). \<not> expires_at w < t1 \<and> t2 < expires_at w \<and>
                (recipient_id w = Some u \<or>
                 (recipient_id w = None \<and>
                  (\<exists>h. nonempty name = Some h \<and> recipient_username w = lower h))))
             (mset c)"
    unfolding filter_filter_mset
    by (rule filter_mset_cong) (auto split: option.splits)
  finally have m: "mset (sort_key ?key (filter ?sel ?live)) = \<dots>" .
  have "sorted (map ?key (sort_key ?key (filter ?sel ?live)))"
    by (rule sorted_sort_key)
  then have s: "sorted_wrt (\<lambda>a b. created_at (snd b) \<le> created_at (snd a))
                  (sort_key ?key (filter ?sel ?live))"
    by (simp add: sorted_wrt_map case_prod_beta')
  from m s show ?thesis unfolding res by blast
qed

theorem whispers_for_user_exact_witness:
  "distinct (map fst
     [(''a'', \<lparr>sender_id = 1, recipient_id = Some 5, recipient_username = ''eve'',
               message_text = ''one'', created_at = 10, expires_at = 10810\<rparr>),
      (''b'', \<lparr>sender_id = 2, recipient_id = None, recipient_username = ''eve'',
               message_text = ''two'', created_at = 20, expires_at = 10820\<rparr>),
      (''c'', \<lparr>sender_id = 3, recipient_id = None, recipient_username = ''bob'',
               message_text = ''three'', created_at = 30, expires_at = 10830\<rparr>)])
   \<and> fst (get_whispers_for_user 100 100 5 (Some ''Eve'')
     [(''a'', \<lparr>sender_id = 1, recipient_id = Some 5, recipient_username = ''eve'',
               message_text = ''one'', created_at = 10, expires_at = 10810\<rparr>),
      (''b'', \<lparr>sender_id = 2, recipient_id = None, recipient_username = ''eve'',
               message_text = ''two'', created_at = 20, expires_at = 10820\<rparr>),
      (''c'', \<lparr>sender_id = 3, recipient_id = None, recipient_username = ''bob'',
               message_text = ''three'', created_at = 30, expires_at = 10830\<rparr>)])
     = [(''b'', \<lparr>sender_id = 2, recipient_id = None, recipient_username = ''eve'',
               message_text = ''two'', created_at = 20, expires_at = 10820\<rparr>),
        (''a'', \<lparr>sender_id = 1, recipient_id = Some 5, recipient_username = ''eve'',
               message_text = ''one'', created_at = 10, expires_at = 10810\<rparr>)]
   \<and> sorted_wrt (\<lambda>a b. created_at (snd b) \<le> created_at (snd a))
       (fst (get_whispers_for_user 100 100 5 (Some ''Eve'')
     [(''a'', \<lparr>sender_id = 1, recipient_id = Some 5, recipient_username = ''eve'',
               message_text = ''one'', created_at = 10, expires_at = 10810\<rparr>),
      (''b'', \<lparr>sender_id = 2, recipient_id = None, recipient_username = ''eve'',
               message_text = ''two'', created_at = 20, expires_at = 10820\<rparr>),
      (''c'', \<lparr>sender_id = 3, recipient_id = None, recipient_username = ''bob'',
               message_text = ''three'', created_at = 30, expires_at = 10830\<rparr>)]))"
proof -
  let ?c = "[(''a'', \<lparr>sender_id = 1, recipient_id = Some 5, recipient_username = ''eve'',
               message_text = ''one'', created_at = 10, expires_at = 10810\<rparr>),
      (''b'', \<lparr>sender_id = 2, recipient_id = None, recipient_username = ''eve'',
               message_text = ''two'', created_at = 20, expires_at = 10820\<rparr>),
      (''c'', \<lparr>sender_id = 3, recipient_id = None, recipient_username = ''bob'',
               message_text = ''three'', created_at = 30, expires_at = 10830\<rparr>)]"
  have d: "distinct (map fst ?c)" by simp
  have low: "lower ''Eve'' = ''eve''" by code_simp
  have v: "fst (get_whispers_for_user 100 100 5 (Some ''Eve'') ?c)
     = [(''b'', \<lparr>sender_id = 2, recipient_id = None, recipient_username = ''eve'',
               message_text = ''two'', created_at = 20, expires_at = 10820\<rparr>),
        (''a'', \<lparr>sender_id = 1, recipient_id = Some 5, recipient_username = ''eve'',
               message_text = ''one'', created_at = 10, expires_at = 10810\<rparr>)]"
    by (simp add: get_whispers_for_user_def cleanup_expired_whispers_def nonempty_def low)
  from whispers_for_user_exact [OF d, of 100 100 5 "Some ''Eve''"] d v
  show ?thesis by blast
qed

section \<open>Properties of the reveal handler\<close>

subsection \<open>The cache under the operations\<close>

lemma set_update_subset: "set (AList.update k v al) \<subseteq> insert (k, v) (set al)"
  by (induction al) auto

lemma set_cleanup: "set (snd (cleanup_expired_whispers t c)) \<subseteq> set c"
  by (simp add: cleanup_expired_whispers_def fold_delete_filter)

lemma set_delete_subset: "set (AList.delete k al) \<subseteq> set al"
  by (auto simp: AList.delete_eq)

lemma set_get_whisper_by_id: "set (snd (get_whisper_by_id t1 t2 wid c)) \<subseteq> set c"
  using set_cleanup [of t1 c] set_delete_subset [of wid "snd (cleanup_expired_whispers t1 c)"]
  by (auto simp: get_whisper_by_id_def Let_def split: option.splits)

lemma distinct_get_whisper_by_id:
  "distinct (map fst c) \<Longrightarrow> distinct (map fst (snd (get_whisper_by_id t1 t2 wid c)))"
  by (auto simp: get_whisper_by_id_def Let_def distinct_cleanup distinct_delete
           split: option.splits)

lemma fst_get_whisper_by_id:
  assumes "distinct (map fst c)"
  shows "fst (get_whisper_by_id t1 t2 wid c) =
           (case map_of c wid of
              None \<Rightarrow> None
            | Some w \<Rightarrow> if expires_at w < t1 \<or> expires_at w < t2 then None else Some w)"
  by (simp add: get_whisper_by_id_def Let_def map_of_cleanup [OF assms] split: option.splits)

lemma map_of_snd_get_whisper_by_id:
  assumes "distinct (map fst c)"
  shows "map_of (snd (get_whisper_by_id t1 t2 wid c)) k =
           (case map_of c k of
              None \<Rightarrow> None
            | Some w \<Rightarrow>
                if expires_at w < t1 \<or> (k = wid \<and> expires_at w < t2) then None else Some w)"
proof -
  let ?c1 = "snd (cleanup_expired_whispers t1 c)"
  note m = map_of_cleanup [OF assms, of t1]
  show ?thesis
  proof (cases "map_of ?c1 wid")
    case None
    then have "snd (get_whisper_by_id t1 t2 wid c) = ?c1"
      by (simp add: get_whisper_by_id_def Let_def)
    with None show ?thesis
      by (cases "k = wid") (auto simp: m split: option.splits if_splits)
  next
    case (Some w)
    then have "snd (get_whisper_by_id t1 t2 wid c) =
                 (if expires_at w < t2 then AList.delete wid ?c1 else ?c1)"
      by (simp add: get_whisper_by_id_def Let_def)
    with Some show ?thesis
      by (cases "k = wid") (auto simp: m delete_conv split: option.splits if_splits)
  qed
qed

lemma write_back_unchanged:
  assumes "fst (get_whisper_by_id t1 t2 k c) = Some w"
  shows "AList.update k w (snd (get_whisper_by_id t1 t2 k c)) = snd (get_whisper_by_id t1 t2 k c)"
proof -
  from assms have "map_of (snd (get_whisper_by_id t1 t2 k c)) k = Some w"
    by (auto simp: get_whisper_by_id_def Let_def split: option.splits if_splits)
  then show ?thesis by (rule update_triv)
qed

lemma requester_username_nonempty: "requester_username env cb = Some h \<Longrightarrow> h \<noteq> []"
  by (auto simp: requester_username_def nonempty_def lower_def
           split: option.splits list.splits outcome.splits)

lemma recipient_check_fields:
  "snd (recipient_check env cb w) = w
   \<or> (recipient_id w = None \<and> snd (recipient_check env cb w) = w\<lparr>recipient_id := Some (cb_user_id cb)\<rparr>)"
  by (simp add: recipient_check_def split: option.splits)

lemma recipient_check_bound:
  "recipient_id w = Some u \<Longrightarrow> recipient_check env cb w = (cb_user_id cb = u, w)"
  by (auto simp: recipient_check_def)

lemma recipient_check_claim:
  assumes "recipient_id w = None" and "requester_username env cb = Some (recipient_username w)"
  shows "recipient_check env cb w = (True, w\<lparr>recipient_id := Some (cb_user_id cb)\<rparr>)"
  using assms requester_username_nonempty [OF assms(2)]
  by (simp add: recipient_check_def)

lemma handler_admitted_found:
  assumes "bot_instance env = Some api"
    and "nonempty (cb_data cb) = Some data" and "startswith data ''whisper_view_''"
    and "check_view_cooldown t1 t2 (cb_user_id cb) (view_cooldowns st) = ((True, r), cds)"
    and "get_whisper_by_id t3 t4 (str_remove data ''whisper_view_'') (whispers_cache st)
           = (Some w0, c1)"
    and "recipient_check env cb w0 = (is_recipient, w)"
  shows "whisper_callback_handler env t1 t2 t3 t4 cb st =
           (if \<not> is_recipient \<and> sender_id w \<noteq> cb_user_id cb
            then [AnswerCallback NoAccess True]
            else present env api cb (sender_id w = cb_user_id cb) w,
            \<lparr>whispers_cache = AList.update (str_remove data ''whisper_view_'') w c1,
             view_cooldowns = cds\<rparr>)"
  using assms by (simp add: whisper_callback_handler_def Let_def)

lemma handler_cases:
  obtains (silent) "whisper_callback_handler env t1 t2 t3 t4 cb st = ([], st)"
  | (wait) r where
      "whisper_callback_handler env t1 t2 t3 t4 cb st =
         ([AnswerCallback (PleaseWait r) True], st)"
  | (missing) data r cds c1 where
      "nonempty (cb_data cb) = Some data"
      "check_view_cooldown t1 t2 (cb_user_id cb) (view_cooldowns st) = ((True, r), cds)"
      "get_whisper_by_id t3 t4 (str_remove data ''whisper_view_'') (whispers_cache st)
         = (None, c1)"
      "whisper_callback_handler env t1 t2 t3 t4 cb st =
         ([AnswerCallback NotFoundOrExpired True],
          \<lparr>whispers_cache = c1, view_cooldowns = cds\<rparr>)"
  | (found) api data r cds w0 c1 where
      "bot_instance env = Some api"
      "nonempty (cb_data cb) = Some data" "startswith data ''whisper_view_''"
      "check_view_cooldown t1 t2 (cb_user_id cb) (view_cooldowns st) = ((True, r), cds)"
      "get_whisper_by_id t3 t4 (str_remove data ''whisper_view_'') (whispers_cache st)
         = (Some w0, c1)"
proof (cases "bot_instance env")
  case None
  then have "whisper_callback_handler env t1 t2 t3 t4 cb st = ([], st)"
    by (simp add: whisper_callback_handler_def)
  then show ?thesis by (rule silent)
next
  case api: (Some api)
  show ?thesis
  proof (cases "nonempty (cb_data cb)")
    case None
    with api have "whisper_callback_handler env t1 t2 t3 t4 cb st = ([], st)"
      by (simp add: whisper_callback_handler_def)
    then show ?thesis by (rule silent)
  next
    case data: (Some data)
    show ?thesis
    proof (cases "startswith data ''whisper_view_''")
      case False
      with api data have "whisper_callback_handler env t1 t2 t3 t4 cb st = ([], st)"
        by (simp add: whisper_callback_handler_def)
      then show ?thesis by (rule silent)
    next
      case pre: True
      obtain can r cds where
        gate: "check_view_cooldown t1 t2 (cb_user_id cb) (view_cooldowns st) = ((can, r), cds)"
        by (metis prod.collapse)
      show ?thesis
      proof (cases can)
        case False
        with gate have "cds = view_cooldowns st"
          by (auto simp: check_view_cooldown_def Let_def split: option.splits if_splits)
        with api data pre gate False
        have "whisper_callback_handler env t1 t2 t3 t4 cb st =
                ([AnswerCallback (PleaseWait r) True], st)"
          by (simp add: whisper_callback_handler_def Let_def)
        then show ?thesis by (rule wait)
      next
        case True
        from gate True
        have gate: "check_view_cooldown t1 t2 (cb_user_id cb) (view_cooldowns st) = ((True, r), cds)"
          by simp
        obtain found c1 where
          get: "get_whisper_by_id t3 t4 (str_remove data ''whisper_view_'') (whispers_cache st)
                  = (found, c1)"
          by (metis prod.collapse)
        show ?thesis
        proof (cases found)
          case None
          with api data pre gate get
          have "whisper_callback_handler env t1 t2 t3 t4 cb st =
                  ([AnswerCallback NotFoundOrExpired True],
                   \<lparr>whispers_cache = c1, view_cooldowns = cds\<rparr>)"
            by (simp add: whisper_callback_handler_def Let_def)
          with data gate get [unfolded None] show ?thesis by (rule missing)
        next
          case (Some w0)
          with api data pre gate get show ?thesis by (intro found) auto
        qed
      qed
    qed
  qed
qed

lemma handler_cache_cases:
  obtains (same) "whispers_cache (snd (whisper_callback_handler env t1 t2 t3 t4 cb st)) = whispers_cache st"
  | (swept) wid where
      "whispers_cache (snd (whisper_callback_handler env t1 t2 t3 t4 cb st))
         = snd (get_whisper_by_id t3 t4 wid (whispers_cache st))"
  | (written) wid w0 where
      "fst (get_whisper_by_id t3 t4 wid (whispers_cache st)) = Some w0"
      "whispers_cache (snd (whisper_callback_handler env t1 t2 t3 t4 cb st))
         = AList.update wid (snd (recipient_check env cb w0))
             (snd (get_whisper_by_id t3 t4 wid (whispers_cache st)))"
proof (cases rule: handler_cases [of env t1 t2 t3 t4 cb st])
  case silent
  then show ?thesis by (intro same) simp
next
  case (wait r)
  then show ?thesis by (intro same) simp
next
  case (missing data r cds c1)
  then show ?thesis by (intro swept [of "str_remove data ''whisper_view_''"]) simp
next
  case (found api data r cds w0 c1)
  obtain is_recipient w where rc: "recipient_check env cb w0 = (is_recipient, w)"
    by (metis prod.collapse)
  note h = handler_admitted_found [OF found rc]
  show ?thesis
    by (rule written [of "str_remove data ''whisper_view_''" w0])
       (simp_all add: h found rc)
qed

lemma store_invariant_subset: "set c' \<subseteq> set c \<Longrightarrow> store_invariant c \<Longrightarrow> store_invariant c'"
  by (auto simp: store_invariant_def)

lemma store_invariant_update:
  assumes "store_invariant c"
    and "expires_at w = created_at w + 3 * 3600" and "length (message_text w) \<le> 1000"
  shows "store_invariant (AList.update k w c)"
  using assms set_update_subset [of k w c] by (auto simp: store_invariant_def)

lemma store_invariant_create:
  assumes "store_invariant c"
  shows "store_invariant (snd (create_whisper env now new_id sender recipient text c))"
proof (cases "fst (create_whisper env now new_id sender recipient text c)")
  case None
  then have "snd (create_whisper env now new_id sender recipient text c) = c"
    by (auto simp: create_whisper_def split: if_splits lookup.splits)
  with assms show ?thesis by simp
next
  case (Some wid)
  then have "create_whisper env now new_id sender recipient text c
               = (Some wid, snd (create_whisper env now new_id sender recipient text c))"
    by (metis prod.collapse)
  from create_whisper_stored [OF this] obtain rid where
    "length text \<le> 1000"
    "snd (create_whisper env now new_id sender recipient text c) =
       AList.update new_id
         \<lparr>sender_id = sender, recipient_id = rid, recipient_username = lower recipient,
          message_text = text, created_at = now, expires_at = now + 3 * 3600\<rparr> c"
    by blast
  with assms show ?thesis by (simp add: store_invariant_update)
qed

lemma store_invariant_handler:
  assumes "store_invariant (whispers_cache st)"
  shows "store_invariant (whispers_cache (snd (whisper_callback_handler env t1 t2 t3 t4 cb st)))"
proof (cases rule: handler_cache_cases [of env t1 t2 t3 t4 cb st])
  case same
  with assms show ?thesis by simp
next
  case (swept wid)
  with assms set_get_whisper_by_id [of t3 t4 wid "whispers_cache st"] show ?thesis
    by (auto intro: store_invariant_subset)
next
  case (written wid w0)
  let ?c1 = "snd (get_whisper_by_id t3 t4 wid (whispers_cache st))"
  have c1: "store_invariant ?c1"
    using assms set_get_whisper_by_id [of t3 t4 wid "whispers_cache st"]
    by (auto intro: store_invariant_subset)
  from written(1) have "map_of ?c1 wid = Some w0"
    by (auto simp: get_whisper_by_id_def Let_def split: option.splits if_splits)
  then have "(wid, w0) \<in> set ?c1" by (rule map_of_SomeD)
  with c1 have w0: "expires_at w0 = created_at w0 + 3 * 3600" "length (message_text w0) \<le> 1000"
    by (auto simp: store_invariant_def)
  from recipient_check_fields [of env cb w0] w0
  have "expires_at (snd (recipient_check env cb w0)) = created_at (snd (recipient_check env cb w0)) + 3 * 3600"
       "length (message_text (snd (recipient_check env cb w0))) \<le> 1000"
    by auto
  with c1 show ?thesis unfolding written(2) by (rule store_invariant_update)
qed

lemma store_invariant_step:
  assumes "store_invariant (whispers_cache st)"
  shows "store_invariant (whispers_cache (step x st))"
proof (cases x)
  case (Create env now new_id sender recipient body)
  with assms show ?thesis by (simp add: store_invariant_create)
next
  case (GetById t1 t2 wid)
  with assms set_get_whisper_by_id [of t1 t2 wid "whispers_cache st"] show ?thesis
    by (auto intro: store_invariant_subset)
next
  case (ListFor t1 t2 u name)
  with assms set_cleanup [of t1 "whispers_cache st"] show ?thesis
    by (auto simp: get_whispers_for_user_def Let_def intro: store_invariant_subset)
next
  case (Sweep t)
  with assms set_cleanup [of t "whispers_cache st"] show ?thesis
    by (auto intro: store_invariant_subset)
next
  case (Reveal env t1 t2 t3 t4 cb)
  with assms show ?thesis by (simp add: store_invariant_handler)
qed

lemma store_invariant_run:
  "store_invariant (whispers_cache st) \<Longrightarrow> store_invariant (whispers_cache (run ops st))"
  unfolding run_def by (induction ops arbitrary: st) (simp_all add: store_invariant_step)

lemma create_cache_cases:
  "snd (create_whisper env now new_id sender recipient body c) = c
   \<or> (\<exists>w. snd (create_whisper env now new_id sender recipient body c) = AList.update new_id w c)"
  by (auto simp: create_whisper_def split: lookup.splits)

lemma distinct_handler:
  assumes "distinct (map fst (whispers_cache st))"
  shows "distinct (map fst (whispers_cache (snd (whisper_callback_handler env t1 t2 t3 t4 cb st))))"
proof (cases rule: handler_cache_cases [of env t1 t2 t3 t4 cb st])
  case same
  with assms show ?thesis by simp
next
  case (swept wid)
  with assms show ?thesis by (simp add: distinct_get_whisper_by_id)
next
  case (written wid w0)
  with assms show ?thesis by (simp add: distinct_get_whisper_by_id distinct_update)
qed

lemma distinct_step:
  assumes "distinct (map fst (whispers_cache st))"
  shows "distinct (map fst (whispers_cache (step x st)))"
proof (cases x)
  case (Create env now new_id sender recipient body)
  with assms create_cache_cases [of env now new_id sender recipient body "whispers_cache st"]
  show ?thesis by (auto simp: distinct_update)
next
  case (GetById t1 t2 wid)
  with assms show ?thesis by (simp add: distinct_get_whisper_by_id)
next
  case (ListFor t1 t2 u name)
  with assms show ?thesis by (simp add: get_whispers_for_user_def Let_def distinct_cleanup)
next
  case (Sweep t)
  with assms show ?thesis by (simp add: distinct_cleanup)
next
  case (Reveal env t1 t2 t3 t4 cb)
  with assms show ?thesis by (simp add: distinct_handler)
qed

lemma kept_get_whisper_by_id:
  assumes "distinct (map fst c)" and "map_of c wid = None \<or> map_of c wid = Some w"
  shows "map_of (snd (get_whisper_by_id t1 t2 k c)) wid = None
         \<or> map_of (snd (get_whisper_by_id t1 t2 k c)) wid = Some w"
  using assms(2)
  by (cases "map_of c wid") (simp_all add: map_of_snd_get_whisper_by_id [OF assms(1)])

lemma kept_cleanup:
  assumes "distinct (map fst c)" and "map_of c wid = None \<or> map_of c wid = Some w"
  shows "map_of (snd (cleanup_expired_whispers t c)) wid = None
         \<or> map_of (snd (cleanup_expired_whispers t c)) wid = Some w"
  using assms(2)
  by (cases "map_of c wid") (simp_all add: map_of_cleanup [OF assms(1)])

lemma run_Nil: "run [] st = st"
  by (simp add: run_def)

lemma run_Cons: "run (x # ops) st = run ops (step x st)"
  by (simp add: run_def)

lemma bound_handler:
  assumes d: "distinct (map fst (whispers_cache st))"
    and b: "recipient_id w = Some u"
    and m: "map_of (whispers_cache st) wid = None \<or> map_of (whispers_cache st) wid = Some w"
  shows "map_of (whispers_cache (snd (whisper_callback_handler env t1 t2 t3 t4 cb st))) wid = None
         \<or> map_of (whispers_cache (snd (whisper_callback_handler env t1 t2 t3 t4 cb st))) wid = Some w"
proof (cases rule: handler_cache_cases [of env t1 t2 t3 t4 cb st])
  case same
  with m show ?thesis by simp
next
  case (swept k)
  with kept_get_whisper_by_id [OF d m, of t3 t4 k] show ?thesis by simp
next
  case (written k w0)
  let ?c1 = "snd (get_whisper_by_id t3 t4 k (whispers_cache st))"
  have c1: "map_of ?c1 wid = None \<or> map_of ?c1 wid = Some w"
    using d m by (rule kept_get_whisper_by_id)
  show ?thesis
  proof (cases "k = wid")
    case False
    with c1 show ?thesis by (simp add: written(2) update_conv')
  next
    case True
    from written(1) have "map_of (whispers_cache st) k = Some w0"
      by (auto simp: fst_get_whisper_by_id [OF d] split: option.splits if_splits)
    with m True have "w0 = w" by auto
    with b have "snd (recipient_check env cb w0) = w" by (simp add: recipient_check_bound)
    with True show ?thesis by (simp add: written(2) update_conv')
  qed
qed

lemma bound_step:
  assumes d: "distinct (map fst (whispers_cache st))"
    and b: "recipient_id w = Some u"
    and m: "map_of (whispers_cache st) wid = None \<or> map_of (whispers_cache st) wid = Some w"
    and x: "\<not> creates x wid"
  shows "map_of (whispers_cache (step x st)) wid = None
         \<or> map_of (whispers_cache (step x st)) wid = Some w"
proof (cases x)
  case (Create env now new_id sender recipient body)
  with x have "new_id \<noteq> wid" by simp
  with m Create create_cache_cases [of env now new_id sender recipient body "whispers_cache st"]
  show ?thesis by (auto simp: update_conv')
next
  case (GetById t1 t2 k)
  with kept_get_whisper_by_id [OF d m, of t1 t2 k] show ?thesis by simp
next
  case (ListFor t1 t2 v name)
  with kept_cleanup [OF d m, of t1] show ?thesis
    by (simp add: get_whispers_for_user_def Let_def)
next
  case (Sweep t)
  with kept_cleanup [OF d m, of t] show ?thesis by simp
next
  case (Reveal env t1 t2 t3 t4 cb)
  with bound_handler [OF d b m] show ?thesis by simp
qed

lemma bound_run:
  assumes "distinct (map fst (whispers_cache st))"
    and "recipient_id w = Some u"
    and "map_of (whispers_cache st) wid = None \<or> map_of (whispers_cache st) wid = Some w"
    and "\<forall>x\<in>set ops. \<not> creates x wid"
  shows "distinct (map fst (whispers_cache (run ops st)))
         \<and> (map_of (whispers_cache (run ops st)) wid = None
            \<or> map_of (whispers_cache (run ops st)) wid = Some w)"
  using assms
proof (induction ops arbitrary: st)
  case Nil
  then show ?case unfolding run_Nil by blast
next
  case (Cons x ops)
  have d: "distinct (map fst (whispers_cache (step x st)))"
    using Cons.prems(1) by (rule distinct_step)
  have m: "map_of (whispers_cache (step x st)) wid = None
           \<or> map_of (whispers_cache (step x st)) wid = Some w"
    using Cons.prems(1,2,3) by (rule bound_step) (use Cons.prems(4) in simp)
  have "\<forall>x\<in>set ops. \<not> creates x wid" using Cons.prems(4) by simp
  from Cons.IH [OF d Cons.prems(2) m this] show ?case unfolding run_Cons .
qed

lemma bound_denies:
  assumes d: "distinct (map fst (whispers_cache st))"
    and b: "recipient_id w = Some u"
    and m: "map_of (whispers_cache st) wid = None \<or> map_of (whispers_cache st) wid = Some w"
    and other: "cb_user_id cb \<noteq> u" "cb_user_id cb \<noteq> sender_id w"
    and data: "nonempty (cb_data cb) = Some data" "str_remove data ''whisper_view_'' = wid"
  shows "fst (whisper_callback_handler env t1 t2 t3 t4 cb st) = []
         \<or> (\<exists>r. fst (whisper_callback_handler env t1 t2 t3 t4 cb st)
                  = [AnswerCallback (PleaseWait r) True])
         \<or> fst (whisper_callback_handler env t1 t2 t3 t4 cb st)
              = [AnswerCallback NotFoundOrExpired True]
         \<or> fst (whisper_callback_handler env t1 t2 t3 t4 cb st) = [AnswerCallback NoAccess True]"
proof (cases rule: handler_cases [of env t1 t2 t3 t4 cb st])
  case silent
  then show ?thesis by simp
next
  case (wait r)
  then show ?thesis by simp
next
  case (missing data r cds c1)
  then show ?thesis by simp
next
  case (found api data' r cds w0 c1)
  from found(2) data have wid: "str_remove data' ''whisper_view_'' = wid" by simp
  from found(5) have "fst (get_whisper_by_id t3 t4 wid (whispers_cache st)) = Some w0"
    by (simp add: wid)
  then have "map_of (whispers_cache st) wid = Some w0"
    by (auto simp: fst_get_whisper_by_id [OF d] split: option.splits if_splits)
  with m have "w0 = w" by auto
  with b other(1) have rc: "recipient_check env cb w0 = (False, w)"
    by (simp add: recipient_check_bound)
  from handler_admitted_found [OF found rc] other(2) show ?thesis by simp
qed

lemma gate_admitted:
  assumes "fst (fst (check_view_cooldown t1 t2 u cds))"
  shows "check_view_cooldown t1 t2 u cds =
           ((True, snd (fst (check_view_cooldown t1 t2 u cds))), snd (check_view_cooldown t1 t2 u cds))"
  using assms by (metis prod.collapse)

lemma claim_binds:
  assumes d: "distinct (map fst (whispers_cache st))"
    and w: "map_of (whispers_cache st) wid = Some w" "recipient_id w = None"
    and api: "bot_instance env = Some api"
    and data: "nonempty (cb_data cb) = Some data" "startswith data ''whisper_view_''"
              "str_remove data ''whisper_view_'' = wid"
    and handle: "requester_username env cb = Some (recipient_username w)"
    and gate: "fst (fst (check_view_cooldown t1 t2 (cb_user_id cb) (view_cooldowns st)))"
    and live: "\<not> expires_at w < t3" "\<not> expires_at w < t4"
  shows "whisper_callback_handler env t1 t2 t3 t4 cb st =
           (present env api cb (sender_id w = cb_user_id cb)
              (w\<lparr>recipient_id := Some (cb_user_id cb)\<rparr>),
            \<lparr>whispers_cache =
               AList.update wid (w\<lparr>recipient_id := Some (cb_user_id cb)\<rparr>)
                 (snd (get_whisper_by_id t3 t4 wid (whispers_cache st))),
             view_cooldowns = snd (check_view_cooldown t1 t2 (cb_user_id cb) (view_cooldowns st))\<rparr>)"
proof -
  have "fst (get_whisper_by_id t3 t4 wid (whispers_cache st)) = Some w"
    using w(1) live by (simp add: fst_get_whisper_by_id [OF d])
  then have get: "get_whisper_by_id t3 t4 (str_remove data ''whisper_view_'') (whispers_cache st)
                    = (Some w, snd (get_whisper_by_id t3 t4 wid (whispers_cache st)))"
    unfolding data(3) by (metis prod.collapse)
  have rc: "recipient_check env cb w = (True, w\<lparr>recipient_id := Some (cb_user_id cb)\<rparr>)"
    using w(2) handle by (rule recipient_check_claim)
  from handler_admitted_found [OF api data(1,2) gate_admitted [OF gate] get rc]
  show ?thesis by (simp add: data(3))
qed

lemma recipient_check_same_text:
  "message_text (snd (recipient_check env cb w)) = message_text w
   \<and> sender_id (snd (recipient_check env cb w)) = sender_id w"
  using recipient_check_fields [of env cb w] by auto

lemma ex_whisper_id: "str_remove ''whisper_view_w1'' ''whisper_view_'' = ''w1''"
  by code_simp

lemma ex_lower_bob: "lower ''Bob'' = ''bob''"
  by code_simp

subsection \<open>Binding the recipient at the first reveal\<close>

text \<open>
  Presses that do not overlap. Take a cache with distinct keys that holds a whisper
  without a recipient id. A requester whose lower-cased handle is the recipient handle of the whisper, who is
  admitted by the cooldown while the whisper has not expired, is shown the whisper,
  and the cache then holds the whisper with the id of the requester as recipient id
  and nothing else changed. After that, whatever operations follow (none of them
  creating a whisper under the same id), a reveal attempt on this whisper by any other
  identity that is not the sender never carries the text: it is answered with the
  refusal of access, or with the cooldown or not-found notice, or not at all.
\<close>

theorem lazy_binding:
  assumes d: "distinct (map fst (whispers_cache st))"
    and w: "map_of (whispers_cache st) wid = Some w" "recipient_id w = None"
    and api: "bot_instance env = Some api"
    and data: "nonempty (cb_data cb) = Some data" "startswith data ''whisper_view_''"
              "str_remove data ''whisper_view_'' = wid"
    and handle: "requester_username env cb = Some (recipient_username w)"
    and gate: "fst (fst (check_view_cooldown t1 t2 (cb_user_id cb) (view_cooldowns st)))"
    and live: "\<not> expires_at w < t3" "\<not> expires_at w < t4"
    and ops: "\<forall>x\<in>set ops. \<not> creates x wid"
    and other: "cb_user_id cb' \<noteq> cb_user_id cb" "cb_user_id cb' \<noteq> sender_id w"
    and data': "nonempty (cb_data cb') = Some data'" "str_remove data' ''whisper_view_'' = wid"
  shows "fst (whisper_callback_handler env t1 t2 t3 t4 cb st) =
           present env api cb (sender_id w = cb_user_id cb)
             (w\<lparr>recipient_id := Some (cb_user_id cb)\<rparr>)
         \<and> map_of (whispers_cache (snd (whisper_callback_handler env t1 t2 t3 t4 cb st))) wid =
             Some (w\<lparr>recipient_id := Some (cb_user_id cb)\<rparr>)
         \<and> \<not> reveals (fst (whisper_callback_handler env' s1 s2 s3 s4 cb'
                 (run ops (snd (whisper_callback_handler env t1 t2 t3 t4 cb st)))))
         \<and> (fst (whisper_callback_handler env' s1 s2 s3 s4 cb'
                 (run ops (snd (whisper_callback_handler env t1 t2 t3 t4 cb st)))) = []
            \<or> (\<exists>r. fst (whisper_callback_handler env' s1 s2 s3 s4 cb'
                 (run ops (snd (whisper_callback_handler env t1 t2 t3 t4 cb st))))
                  = [AnswerCallback (PleaseWait r) True])
            \<or> fst (whisper_callback_handler env' s1 s2 s3 s4 cb'
                 (run ops (snd (whisper_callback_handler env t1 t2 t3 t4 cb st))))
                  = [AnswerCallback NotFoundOrExpired True]
            \<or> fst (whisper_callback_handler env' s1 s2 s3 s4 cb'
                 (run ops (snd (whisper_callback_handler env t1 t2 t3 t4 cb st))))
                  = [AnswerCallback NoAccess True])"
proof -
  let ?h = "whisper_callback_handler env t1 t2 t3 t4 cb st"
  let ?w' = "w\<lparr>recipient_id := Some (cb_user_id cb)\<rparr>"
  let ?later = "fst (whisper_callback_handler env' s1 s2 s3 s4 cb' (run ops (snd ?h)))"
  note h = claim_binds [OF d w api data handle gate live]
  have a: "fst ?h = present env api cb (sender_id w = cb_user_id cb) ?w'"
    by (simp add: h)
  have b: "map_of (whispers_cache (snd ?h)) wid = Some ?w'"
    by (simp add: h update_conv')
  have d1: "distinct (map fst (whispers_cache (snd ?h)))"
    using d by (rule distinct_handler)
  have bound: "recipient_id ?w' = Some (cb_user_id cb)" by simp
  have kept: "map_of (whispers_cache (snd ?h)) wid = None
              \<or> map_of (whispers_cache (snd ?h)) wid = Some ?w'"
    using b by blast
  from bound_run [OF d1 bound kept ops]
  have d2: "distinct (map fst (whispers_cache (run ops (snd ?h))))"
    and k2: "map_of (whispers_cache (run ops (snd ?h))) wid = None
             \<or> map_of (whispers_cache (run ops (snd ?h))) wid = Some ?w'"
    by blast+
  have o2: "cb_user_id cb' \<noteq> sender_id ?w'" using other(2) by simp
  from bound_denies [OF d2 bound k2 other(1) o2 data', of env' s1 s2 s3 s4]
  have c: "?later = [] \<or> (\<exists>r. ?later = [AnswerCallback (PleaseWait r) True])
           \<or> ?later = [AnswerCallback NotFoundOrExpired True]
           \<or> ?later = [AnswerCallback NoAccess True]" .
  then have "\<not> reveals ?later" by (auto simp: reveals_def)
  with a b c show ?thesis by blast
qed

theorem lazy_binding_witness:
  "map_of [(''w1'', \<lparr>sender_id = 1, recipient_id = None, recipient_username = ''bob'',
        message_text = ''hi'', created_at = 0, expires_at = 10800\<rparr>)] ''w1'' = Some \<lparr>sender_id = 1, recipient_id = None, recipient_username = ''bob'',
        message_text = ''hi'', created_at = 0, expires_at = 10800\<rparr>
   \<and> requester_username online
        \<lparr>cb_data = Some ''whisper_view_w1'', cb_user_id = 2, cb_username = Some ''Bob'',
         cb_chat_id = None\<rparr> = Some (recipient_username \<lparr>sender_id = 1, recipient_id = None, recipient_username = ''bob'',
        message_text = ''hi'', created_at = 0, expires_at = 10800\<rparr>)
   \<and> fst (whisper_callback_handler online 100 100 100 100
        \<lparr>cb_data = Some ''whisper_view_w1'', cb_user_id = 2, cb_username = Some ''Bob'',
         cb_chat_id = None\<rparr>
        \<lparr>whispers_cache = [(''w1'', \<lparr>sender_id = 1, recipient_id = None, recipient_username = ''bob'',
        message_text = ''hi'', created_at = 0, expires_at = 10800\<rparr>)], view_cooldowns = Map.empty\<rparr>)
      = [AnswerCallback (RevealAlert False Unknown ''hi'') True]
   \<and> map_of (whispers_cache (snd (whisper_callback_handler online 100 100 100 100
        \<lparr>cb_data = Some ''whisper_view_w1'', cb_user_id = 2, cb_username = Some ''Bob'',
         cb_chat_id = None\<rparr>
        \<lparr>whispers_cache = [(''w1'', \<lparr>sender_id = 1, recipient_id = None, recipient_username = ''bob'',
        message_text = ''hi'', created_at = 0, expires_at = 10800\<rparr>)], view_cooldowns = Map.empty\<rparr>))) ''w1''
      = Some (\<lparr>sender_id = 1, recipient_id = None, recipient_username = ''bob'',
        message_text = ''hi'', created_at = 0, expires_at = 10800\<rparr>\<lparr>recipient_id := Some 2\<rparr>)
   \<and> \<not> reveals (fst (whisper_callback_handler online 300 300 300 300
        \<lparr>cb_data = Some ''whisper_view_w1'', cb_user_id = 3, cb_username = Some ''bob'',
         cb_chat_id = None\<rparr>
        (run [Sweep 200] (snd (whisper_callback_handler online 100 100 100 100
          \<lparr>cb_data = Some ''whisper_view_w1'', cb_user_id = 2, cb_username = Some ''Bob'',
           cb_chat_id = None\<rparr>
          \<lparr>whispers_cache = [(''w1'', \<lparr>sender_id = 1, recipient_id = None, recipient_username = ''bob'',
        message_text = ''hi'', created_at = 0, expires_at = 10800\<rparr>)], view_cooldowns = Map.empty\<rparr>)))))"
proof -
  let ?w = "\<lparr>sender_id = 1, recipient_id = None, recipient_username = ''bob'',
        message_text = ''hi'', created_at = 0, expires_at = 10800\<rparr>"
  let ?st = "\<lparr>whispers_cache = [(''w1'', ?w)], view_cooldowns = Map.empty\<rparr>"
  let ?cb = "\<lparr>cb_data = Some ''whisper_view_w1'', cb_user_id = 2, cb_username = Some ''Bob'',
         cb_chat_id = None\<rparr>"
  let ?cb' = "\<lparr>cb_data = Some ''whisper_view_w1'', cb_user_id = 3, cb_username = Some ''bob'',
         cb_chat_id = None\<rparr>"
  have d: "distinct (map fst (whispers_cache ?st))" by simp
  have m: "map_of (whispers_cache ?st) ''w1'' = Some ?w" by simp
  have n: "recipient_id ?w = None" by simp
  have api: "bot_instance online = Some delivering" by (simp add: online_def)
  have data: "nonempty (cb_data ?cb) = Some ''whisper_view_w1''"
    by (simp add: nonempty_def)
  have pre: "startswith ''whisper_view_w1'' ''whisper_view_''" by (simp add: startswith_def)
  have handle: "requester_username online ?cb = Some (recipient_username ?w)"
    by (simp add: requester_username_def nonempty_def ex_lower_bob)
  have gate: "fst (fst (check_view_cooldown 100 100 (cb_user_id ?cb) (view_cooldowns ?st)))"
    by (simp add: check_view_cooldown_def)
  have live: "\<not> expires_at ?w < 100" by simp
  have ops: "\<forall>x\<in>set [Sweep 200]. \<not> creates x ''w1''" by simp
  have o1: "cb_user_id ?cb' \<noteq> cb_user_id ?cb" by simp
  have o2: "cb_user_id ?cb' \<noteq> sender_id ?w" by simp
  have data': "nonempty (cb_data ?cb') = Some ''whisper_view_w1''"
    by (simp add: nonempty_def)
  have shown: "present online delivering ?cb (sender_id ?w = cb_user_id ?cb)
                 (?w\<lparr>recipient_id := Some (cb_user_id ?cb)\<rparr>)
               = [AnswerCallback (RevealAlert False Unknown ''hi'') True]"
    by (simp add: present_def WHISPER_ALERT_MAX_LENGTH_def online_def display_name_def)
  from lazy_binding [OF d m n api data pre ex_whisper_id handle gate live live ops o1 o2
      data' ex_whisper_id, of online 300 300 300 300]
  show ?thesis using m handle shown by simp
qed

subsection \<open>Presenting the text\<close>

text \<open>
  C8. When the requester is admitted by the cooldown, the whisper is found and the
  requester is its recipient or its sender, a text of at most 170 characters is the
  answer of the callback, shown as an alert; a longer text is sent as a message to
  the chat of the callback when there is one (a chat id that is present and not
  zero) and to the requester otherwise, and the answer is only the note saying where
  it went; when the sending raises, the answer is the notice that it failed.
\<close>

theorem reveal_presentation:
  assumes api: "bot_instance env = Some api"
    and data: "nonempty (cb_data cb) = Some data" "startswith data ''whisper_view_''"
    and gate: "fst (fst (check_view_cooldown t1 t2 (cb_user_id cb) (view_cooldowns st)))"
    and found: "fst (get_whisper_by_id t3 t4 (str_remove data ''whisper_view_'')
                  (whispers_cache st)) = Some w"
    and auth: "fst (recipient_check env cb w) \<or> sender_id w = cb_user_id cb"
  shows "(length (message_text w) \<le> 170 \<longrightarrow>
            (\<exists>label. fst (whisper_callback_handler env t1 t2 t3 t4 cb st) =
               [AnswerCallback
                  (RevealAlert (sender_id w = cb_user_id cb) label (message_text w)) True]))
         \<and> (170 < length (message_text w) \<longrightarrow>
            (\<exists>label.
               let target = (case cb_chat_id cb of
                               Some c \<Rightarrow> if c \<noteq> 0 then c else cb_user_id cb
                             | None \<Rightarrow> cb_user_id cb);
                   note = (case cb_chat_id cb of
                             Some c \<Rightarrow> if c \<noteq> 0 then SentToChat else SentToPrivate
                           | None \<Rightarrow> SentToPrivate);
                   full = RevealHtml (sender_id w = cb_user_id cb) label (message_text w)
               in fst (whisper_callback_handler env t1 t2 t3 t4 cb st) =
                    (if send_message api target full
                     then [SendMessage target full, AnswerCallback note False]
                     else [AnswerCallback CouldNotSend True])))"
proof -
  let ?w = "snd (recipient_check env cb w)"
  let ?label = "if sender_id w = cb_user_id cb then recipient_label env ?w
                else display_name (db_get_user env (sender_id w))"
  have get: "get_whisper_by_id t3 t4 (str_remove data ''whisper_view_'') (whispers_cache st)
               = (Some w, snd (get_whisper_by_id t3 t4 (str_remove data ''whisper_view_'')
                                 (whispers_cache st)))"
    using found by (metis prod.collapse)
  have rc: "recipient_check env cb w = (fst (recipient_check env cb w), ?w)" by simp
  note same = recipient_check_same_text [of env cb w]
  from handler_admitted_found [OF api data gate_admitted [OF gate] get rc] auth same
  have h: "fst (whisper_callback_handler env t1 t2 t3 t4 cb st) =
             present env api cb (sender_id w = cb_user_id cb) ?w"
    by auto
  have short: "length (message_text w) \<le> 170 \<longrightarrow>
      fst (whisper_callback_handler env t1 t2 t3 t4 cb st) =
        [AnswerCallback (RevealAlert (sender_id w = cb_user_id cb) ?label (message_text w)) True]"
    using same by (simp add: h present_def WHISPER_ALERT_MAX_LENGTH_def)
  have long: "170 < length (message_text w) \<longrightarrow>
      (let target = (case cb_chat_id cb of
                               Some c \<Rightarrow> if c \<noteq> 0 then c else cb_user_id cb
                             | None \<Rightarrow> cb_user_id cb);
                   note = (case cb_chat_id cb of
                             Some c \<Rightarrow> if c \<noteq> 0 then SentToChat else SentToPrivate
                           | None \<Rightarrow> SentToPrivate);
                   full = RevealHtml (sender_id w = cb_user_id cb) ?label (message_text w)
               in fst (whisper_callback_handler env t1 t2 t3 t4 cb st) =
                    (if send_message api target full
                     then [SendMessage target full, AnswerCallback note False]
                     else [AnswerCallback CouldNotSend True]))"
    using same
    by (simp add: h present_def WHISPER_ALERT_MAX_LENGTH_def Let_def split: option.splits)
  from short long show ?thesis by blast
qed

theorem reveal_presentation_witness:
  "bot_instance online = Some delivering
   \<and> length (message_text \<lparr>sender_id = 1, recipient_id = Some 2, recipient_username = ''bob'',
        message_text = ''hi'', created_at = 0, expires_at = 10800\<rparr>) \<le> 170 \<and> 170 < length (message_text \<lparr>sender_id = 1, recipient_id = Some 2, recipient_username = ''bob'',
        message_text = replicate 200 CHR ''a'', created_at = 0, expires_at = 10800\<rparr>)
   \<and> (\<exists>label. fst (whisper_callback_handler online 100 100 100 100 \<lparr>cb_data = Some ''whisper_view_w1'', cb_user_id = 2, cb_username = None,
         cb_chat_id = Some 55\<rparr>
          \<lparr>whispers_cache = [(''w1'', \<lparr>sender_id = 1, recipient_id = Some 2, recipient_username = ''bob'',
        message_text = ''hi'', created_at = 0, expires_at = 10800\<rparr>)], view_cooldowns = Map.empty\<rparr>)
        = [AnswerCallback (RevealAlert False label ''hi'') True])
   \<and> (\<exists>label. fst (whisper_callback_handler online 100 100 100 100 \<lparr>cb_data = Some ''whisper_view_w1'', cb_user_id = 2, cb_username = None,
         cb_chat_id = Some 55\<rparr>
          \<lparr>whispers_cache = [(''w1'', \<lparr>sender_id = 1, recipient_id = Some 2, recipient_username = ''bob'',
        message_text = replicate 200 CHR ''a'', created_at = 0, expires_at = 10800\<rparr>)], view_cooldowns = Map.empty\<rparr>)
        = [SendMessage 55 (RevealHtml False label (replicate 200 CHR ''a'')),
           AnswerCallback SentToChat False])"
proof -
  let ?cb = "\<lparr>cb_data = Some ''whisper_view_w1'', cb_user_id = 2, cb_username = None,
         cb_chat_id = Some 55\<rparr>"
  let ?short = "\<lparr>whispers_cache = [(''w1'', \<lparr>sender_id = 1, recipient_id = Some 2, recipient_username = ''bob'',
        message_text = ''hi'', created_at = 0, expires_at = 10800\<rparr>)], view_cooldowns = Map.empty\<rparr>"
  let ?long = "\<lparr>whispers_cache = [(''w1'', \<lparr>sender_id = 1, recipient_id = Some 2, recipient_username = ''bob'',
        message_text = replicate 200 CHR ''a'', created_at = 0, expires_at = 10800\<rparr>)], view_cooldowns = Map.empty\<rparr>"
  have api: "bot_instance online = Some delivering" by (simp add: online_def)
  have data: "nonempty (cb_data ?cb) = Some ''whisper_view_w1''"
    by (simp add: nonempty_def)
  have pre: "startswith ''whisper_view_w1'' ''whisper_view_''" by (simp add: startswith_def)
  have gs: "fst (fst (check_view_cooldown 100 100 (cb_user_id ?cb) (view_cooldowns ?short)))"
    by (simp add: check_view_cooldown_def)
  have gl: "fst (fst (check_view_cooldown 100 100 (cb_user_id ?cb) (view_cooldowns ?long)))"
    by (simp add: check_view_cooldown_def)
  have fs: "fst (get_whisper_by_id 100 100 (str_remove ''whisper_view_w1'' ''whisper_view_'')
                   (whispers_cache ?short)) = Some \<lparr>sender_id = 1, recipient_id = Some 2, recipient_username = ''bob'',
        message_text = ''hi'', created_at = 0, expires_at = 10800\<rparr>"
    by (simp add: ex_whisper_id get_whisper_by_id_def cleanup_expired_whispers_def)
  have fl: "fst (get_whisper_by_id 100 100 (str_remove ''whisper_view_w1'' ''whisper_view_'')
                   (whispers_cache ?long)) = Some \<lparr>sender_id = 1, recipient_id = Some 2, recipient_username = ''bob'',
        message_text = replicate 200 CHR ''a'', created_at = 0, expires_at = 10800\<rparr>"
    by (simp add: ex_whisper_id get_whisper_by_id_def cleanup_expired_whispers_def)
  have as: "fst (recipient_check online ?cb \<lparr>sender_id = 1, recipient_id = Some 2, recipient_username = ''bob'',
        message_text = ''hi'', created_at = 0, expires_at = 10800\<rparr>) \<or> sender_id \<lparr>sender_id = 1, recipient_id = Some 2, recipient_username = ''bob'',
        message_text = ''hi'', created_at = 0, expires_at = 10800\<rparr> = cb_user_id ?cb"
    by (simp add: recipient_check_def)
  have al: "fst (recipient_check online ?cb \<lparr>sender_id = 1, recipient_id = Some 2, recipient_username = ''bob'',
        message_text = replicate 200 CHR ''a'', created_at = 0, expires_at = 10800\<rparr>) \<or> sender_id \<lparr>sender_id = 1, recipient_id = Some 2, recipient_username = ''bob'',
        message_text = replicate 200 CHR ''a'', created_at = 0, expires_at = 10800\<rparr> = cb_user_id ?cb"
    by (simp add: recipient_check_def)
  have sent: "send_message delivering t m" for t m by (simp add: delivering_def)
  from reveal_presentation [OF api data pre gs fs as]
  have s: "\<exists>label. fst (whisper_callback_handler online 100 100 100 100 ?cb ?short)
        = [AnswerCallback (RevealAlert False label ''hi'') True]"
    by simp
  from reveal_presentation [OF api data pre gl fl al]
  have l: "\<exists>label. fst (whisper_callback_handler online 100 100 100 100 ?cb ?long)
        = [SendMessage 55 (RevealHtml False label (replicate 200 CHR ''a'')),
           AnswerCallback SentToChat False]"
    by (simp add: sent)
  from api s l show ?thesis by simp
qed

subsection \<open>The invariant of the cache\<close>

text \<open>
  C9. Every stored whisper expires three hours after its creation and has a text of at
  most 1000 characters: this holds of the empty cache, is preserved by creation, by a
  read with its eviction, by listing, by the sweep and by the reveal handler with its
  assignment of the recipient id, hence by every operation and along every run; and
  that assignment changes no other field of the whisper.
\<close>

theorem store_invariant_preserved:
  "store_invariant (whispers_cache initial)
   \<and> (store_invariant c \<longrightarrow>
        store_invariant (snd (create_whisper env now new_id sender recipient body c))
        \<and> store_invariant (snd (get_whisper_by_id t1 t2 wid c))
        \<and> store_invariant (snd (get_whispers_for_user t1 t2 user name c))
        \<and> store_invariant (snd (cleanup_expired_whispers t1 c)))
   \<and> (store_invariant (whispers_cache st) \<longrightarrow>
        store_invariant (whispers_cache (snd (whisper_callback_handler env t1 t2 t3 t4 cb st)))
        \<and> store_invariant (whispers_cache (step x st))
        \<and> store_invariant (whispers_cache (run ops st)))
   \<and> store_invariant (whispers_cache (run ops initial))
   \<and> (snd (recipient_check env cb w) = w
      \<or> snd (recipient_check env cb w) = w\<lparr>recipient_id := Some (cb_user_id cb)\<rparr>)"
proof -
  have i: "store_invariant (whispers_cache initial)"
    by (simp add: initial_def store_invariant_def)
  have a: "store_invariant c \<longrightarrow>
        store_invariant (snd (create_whisper env now new_id sender recipient body c))
        \<and> store_invariant (snd (get_whisper_by_id t1 t2 wid c))
        \<and> store_invariant (snd (get_whispers_for_user t1 t2 user name c))
        \<and> store_invariant (snd (cleanup_expired_whispers t1 c))"
    using set_get_whisper_by_id [of t1 t2 wid c] set_cleanup [of t1 c]
    by (auto simp: store_invariant_create get_whispers_for_user_def Let_def
             intro: store_invariant_subset)
  have b: "store_invariant (whispers_cache st) \<longrightarrow>
        store_invariant (whispers_cache (snd (whisper_callback_handler env t1 t2 t3 t4 cb st)))
        \<and> store_invariant (whispers_cache (step x st))
        \<and> store_invariant (whispers_cache (run ops st))"
    by (simp add: store_invariant_handler store_invariant_step store_invariant_run)
  have r: "store_invariant (whispers_cache (run ops initial))"
    using i by (rule store_invariant_run)
  from i a b r recipient_check_fields [of env cb w] show ?thesis by blast
qed

theorem store_invariant_preserved_witness:
  "store_invariant [(''w1'', \<lparr>sender_id = 1, recipient_id = None, recipient_username = ''ann'',
        message_text = ''note'', created_at = 0, expires_at = 10800\<rparr>)]
   \<and> store_invariant (snd (create_whisper offline 5 ''w2'' 1 ''Eve'' ''yo'' [(''w1'', \<lparr>sender_id = 1, recipient_id = None, recipient_username = ''ann'',
        message_text = ''note'', created_at = 0, expires_at = 10800\<rparr>)]))
   \<and> store_invariant (snd (get_whisper_by_id 20000 20000 ''w1'' [(''w1'', \<lparr>sender_id = 1, recipient_id = None, recipient_username = ''ann'',
        message_text = ''note'', created_at = 0, expires_at = 10800\<rparr>)]))
   \<and> store_invariant (whispers_cache (snd (whisper_callback_handler online 100 100 100 100 \<lparr>cb_data = Some ''whisper_view_w1'', cb_user_id = 1, cb_username = Some ''Ann'',
         cb_chat_id = None\<rparr>
        \<lparr>whispers_cache = [(''w1'', \<lparr>sender_id = 1, recipient_id = None, recipient_username = ''ann'',
        message_text = ''note'', created_at = 0, expires_at = 10800\<rparr>)], view_cooldowns = Map.empty\<rparr>)))
   \<and> store_invariant (whispers_cache (run
        [Create offline 0 ''w1'' 1 ''Ann'' ''note'', Reveal online 100 100 100 100 \<lparr>cb_data = Some ''whisper_view_w1'', cb_user_id = 1, cb_username = Some ''Ann'',
         cb_chat_id = None\<rparr>, Sweep 20000]
        initial))"
proof -
  let ?c = "[(''w1'', \<lparr>sender_id = 1, recipient_id = None, recipient_username = ''ann'',
        message_text = ''note'', created_at = 0, expires_at = 10800\<rparr>)]"
  let ?st = "\<lparr>whispers_cache = ?c, view_cooldowns = Map.empty\<rparr>"
  have i: "store_invariant ?c" by (simp add: store_invariant_def)
  then have i': "store_invariant (whispers_cache ?st)" by simp
  from store_invariant_preserved [where c = ?c and env = offline and now = 5
      and new_id = "''w2''" and sender = 1 and recipient = "''Eve''" and body = "''yo''"
      and ?t1.0 = 20000 and ?t2.0 = 20000 and wid = "''w1''"]
  have a: "store_invariant (snd (create_whisper offline 5 ''w2'' 1 ''Eve'' ''yo'' ?c))"
      and b: "store_invariant (snd (get_whisper_by_id 20000 20000 ''w1'' ?c))"
    using i by blast+
  from store_invariant_preserved [where st = ?st and env = online and ?t1.0 = 100
      and ?t2.0 = 100 and ?t3.0 = 100 and ?t4.0 = 100 and cb = "\<lparr>cb_data = Some ''whisper_view_w1'', cb_user_id = 1, cb_username = Some ''Ann'',
         cb_chat_id = None\<rparr>"]
  have c: "store_invariant (whispers_cache (snd (whisper_callback_handler online 100 100 100 100 \<lparr>cb_data = Some ''whisper_view_w1'', cb_user_id = 1, cb_username = Some ''Ann'',
         cb_chat_id = None\<rparr> ?st)))"
    using i' by blast
  from store_invariant_preserved
  have r: "store_invariant (whispers_cache (run
        [Create offline 0 ''w1'' 1 ''Ann'' ''note'', Reveal online 100 100 100 100 \<lparr>cb_data = Some ''whisper_view_w1'', cb_user_id = 1, cb_username = Some ''Ann'',
         cb_chat_id = None\<rparr>, Sweep 20000]
        initial))"
    by blast
  from i a b c r show ?thesis by blast
qed

subsection \<open>A whisper to oneself\<close>

text \<open>
  C10. When the handle of the sender does not resolve (the database finds nothing or
  raises, and the platform lookup raises or there is no client), a creation for the
  sender's own handle with a text of at most 1000 characters succeeds and stores the
  whisper without a recipient id; and when the sender later presses the reveal button
  with that handle, admitted by the cooldown within three hours, the sender is shown
  the whisper and becomes its recipient.
\<close>

theorem unresolved_self_whisper:
  assumes "length body \<le> 1000" and "resolve env handle = Unresolved"
  shows "let w = \<lparr>sender_id = sender, recipient_id = None,
                   recipient_username = lower handle, message_text = body,
                   created_at = t0, expires_at = t0 + 3 * 3600\<rparr>
         in create_whisper env t0 new_id sender handle body c =
              (Some new_id, AList.update new_id w c)
            \<and> (distinct (map fst c) \<and> bot_instance env' = Some api
                \<and> nonempty (cb_data cb) = Some data \<and> startswith data ''whisper_view_''
                \<and> str_remove data ''whisper_view_'' = new_id
                \<and> cb_user_id cb = sender
                \<and> requester_username env' cb = Some (lower handle)
                \<and> fst (fst (check_view_cooldown t1 t2 sender cds))
                \<and> t3 \<le> t0 + 3 * 3600 \<and> t4 \<le> t0 + 3 * 3600
               \<longrightarrow> fst (whisper_callback_handler env' t1 t2 t3 t4 cb
                          \<lparr>whispers_cache = AList.update new_id w c, view_cooldowns = cds\<rparr>)
                     = present env' api cb True (w\<lparr>recipient_id := Some sender\<rparr>)
                   \<and> map_of (whispers_cache (snd (whisper_callback_handler env' t1 t2 t3 t4 cb
                          \<lparr>whispers_cache = AList.update new_id w c, view_cooldowns = cds\<rparr>)))
                       new_id
                     = Some (w\<lparr>recipient_id := Some sender\<rparr>))"
proof -
  let ?w = "\<lparr>sender_id = sender, recipient_id = None,
                   recipient_username = lower handle, message_text = body,
                   created_at = t0, expires_at = t0 + 3 * 3600\<rparr>"
  let ?st = "\<lparr>whispers_cache = AList.update new_id ?w c, view_cooldowns = cds\<rparr>"
  have created: "create_whisper env t0 new_id sender handle body c =
              (Some new_id, AList.update new_id ?w c)"
    using assms
    by (simp add: create_whisper_def lookup_recipient_resolve
                WHISPER_MAX_LENGTH_def WHISPER_EXPIRY_HOURS_def)
  have bound: "fst (whisper_callback_handler env' t1 t2 t3 t4 cb ?st)
                 = present env' api cb True (?w\<lparr>recipient_id := Some sender\<rparr>)
               \<and> map_of (whispers_cache (snd (whisper_callback_handler env' t1 t2 t3 t4 cb ?st)))
                   new_id
                 = Some (?w\<lparr>recipient_id := Some sender\<rparr>)"
    if d: "distinct (map fst c)" and api: "bot_instance env' = Some api"
      and data: "nonempty (cb_data cb) = Some data" "startswith data ''whisper_view_''"
                "str_remove data ''whisper_view_'' = new_id"
      and u: "cb_user_id cb = sender"
      and handle: "requester_username env' cb = Some (lower handle)"
      and gate: "fst (fst (check_view_cooldown t1 t2 sender cds))"
      and live: "t3 \<le> t0 + 3 * 3600" "t4 \<le> t0 + 3 * 3600"
  proof -
    have d': "distinct (map fst (whispers_cache ?st))"
      using d by (simp add: distinct_update)
    have m: "map_of (whispers_cache ?st) new_id = Some ?w" by (simp add: update_conv')
    have n: "recipient_id ?w = None" by simp
    have hd: "requester_username env' cb = Some (recipient_username ?w)" using handle by simp
    have g: "fst (fst (check_view_cooldown t1 t2 (cb_user_id cb) (view_cooldowns ?st)))"
      using gate u by simp
    have l: "\<not> expires_at ?w < t3" "\<not> expires_at ?w < t4" using live by simp_all
    from claim_binds [OF d' m n api data hd g l] u show ?thesis
      by (simp add: update_conv')
  qed
  from created bound show ?thesis unfolding Let_def by blast
qed

theorem unresolved_self_whisper_witness:
  "length ''note'' \<le> 1000 \<and> resolve offline ''Ann'' = Unresolved
   \<and> create_whisper offline 0 ''w1'' 1 ''Ann'' ''note'' [] = (Some ''w1'', [(''w1'', \<lparr>sender_id = 1, recipient_id = None, recipient_username = ''ann'',
        message_text = ''note'', created_at = 0, expires_at = 10800\<rparr>)])
   \<and> requester_username online \<lparr>cb_data = Some ''whisper_view_w1'', cb_user_id = 1, cb_username = Some ''Ann'',
         cb_chat_id = None\<rparr> = Some ''ann''
   \<and> map_of (whispers_cache (snd (whisper_callback_handler online 100 100 100 100 \<lparr>cb_data = Some ''whisper_view_w1'', cb_user_id = 1, cb_username = Some ''Ann'',
         cb_chat_id = None\<rparr>
        \<lparr>whispers_cache = [(''w1'', \<lparr>sender_id = 1, recipient_id = None, recipient_username = ''ann'',
        message_text = ''note'', created_at = 0, expires_at = 10800\<rparr>)], view_cooldowns = Map.empty\<rparr>))) ''w1''
      = Some (\<lparr>sender_id = 1, recipient_id = None, recipient_username = ''ann'',
        message_text = ''note'', created_at = 0, expires_at = 10800\<rparr>\<lparr>recipient_id := Some 1\<rparr>)"
proof -
  have len: "length ''note'' \<le> 1000" by simp
  have un: "resolve offline ''Ann'' = Unresolved" by (simp add: resolve_def offline_def)
  have low: "lower ''Ann'' = ''ann''" by code_simp
  have d: "distinct (map fst ([] :: cache))" by simp
  have api: "bot_instance online = Some delivering" by (simp add: online_def)
  have data: "nonempty (cb_data \<lparr>cb_data = Some ''whisper_view_w1'', cb_user_id = 1, cb_username = Some ''Ann'',
         cb_chat_id = None\<rparr>) = Some ''whisper_view_w1''"
    by (simp add: nonempty_def)
  have pre: "startswith ''whisper_view_w1'' ''whisper_view_''" by (simp add: startswith_def)
  have handle: "requester_username online \<lparr>cb_data = Some ''whisper_view_w1'', cb_user_id = 1, cb_username = Some ''Ann'',
         cb_chat_id = None\<rparr> = Some ''ann''"
    by (simp add: requester_username_def nonempty_def low)
  have gate: "fst (fst (check_view_cooldown 100 100 1 Map.empty))"
    by (simp add: check_view_cooldown_def)
  from unresolved_self_whisper [OF len un, where ?t0.0 = 0 and new_id = "''w1''"
      and sender = 1 and c = "[]" and env' = online and api = delivering
      and cb = "\<lparr>cb_data = Some ''whisper_view_w1'', cb_user_id = 1, cb_username = Some ''Ann'',
         cb_chat_id = None\<rparr>"
      and data = "''whisper_view_w1''" and ?t1.0 = 100 and ?t2.0 = 100 and cds = Map.empty
      and ?t3.0 = 100 and ?t4.0 = 100]
  show ?thesis
    using len un d api data pre ex_whisper_id handle gate by (simp add: low Let_def)
qed

subsection \<open>Requesters whose handle does not match\<close>

text \<open>
  A requester who is not the sender and whose handle is not the recipient handle is
  refused, and the whisper stays without a recipient id; it stays so along every run
  in which no reveal presents the recipient handle for it.
\<close>

lemma recipient_check_mismatch:
  assumes "recipient_id w = None" and "requester_username env cb \<noteq> Some (recipient_username w)"
  shows "recipient_check env cb w = (False, w)"
  using assms by (auto simp: recipient_check_def split: option.splits)

lemma wrong_handle_refused:
  assumes d: "distinct (map fst (whispers_cache st))"
    and w: "map_of (whispers_cache st) wid = Some w" "recipient_id w = None"
    and api: "bot_instance env = Some api"
    and data: "nonempty (cb_data cb) = Some data" "startswith data ''whisper_view_''"
              "str_remove data ''whisper_view_'' = wid"
    and handle: "requester_username env cb \<noteq> Some (recipient_username w)"
    and other: "cb_user_id cb \<noteq> sender_id w"
    and gate: "fst (fst (check_view_cooldown t1 t2 (cb_user_id cb) (view_cooldowns st)))"
    and live: "\<not> expires_at w < t3" "\<not> expires_at w < t4"
  shows "fst (whisper_callback_handler env t1 t2 t3 t4 cb st) = [AnswerCallback NoAccess True]
         \<and> map_of (whispers_cache (snd (whisper_callback_handler env t1 t2 t3 t4 cb st))) wid
             = Some w"
proof -
  have "fst (get_whisper_by_id t3 t4 wid (whispers_cache st)) = Some w"
    using w(1) live by (simp add: fst_get_whisper_by_id [OF d])
  then have get: "get_whisper_by_id t3 t4 (str_remove data ''whisper_view_'') (whispers_cache st)
                    = (Some w, snd (get_whisper_by_id t3 t4 wid (whispers_cache st)))"
    unfolding data(3) by (metis prod.collapse)
  have rc: "recipient_check env cb w = (False, w)"
    using w(2) handle by (rule recipient_check_mismatch)
  from handler_admitted_found [OF api data(1,2) gate_admitted [OF gate] get rc] other
  show ?thesis by (simp add: data(3) update_conv')
qed

lemma unbound_handler:
  assumes d: "distinct (map fst (whispers_cache st))"
    and u: "recipient_id w = None"
    and m: "map_of (whispers_cache st) wid = None \<or> map_of (whispers_cache st) wid = Some w"
    and n: "\<not> names (Reveal env t1 t2 t3 t4 cb) wid (recipient_username w)"
  shows "map_of (whispers_cache (snd (whisper_callback_handler env t1 t2 t3 t4 cb st))) wid = None
         \<or> map_of (whispers_cache (snd (whisper_callback_handler env t1 t2 t3 t4 cb st))) wid = Some w"
proof (cases rule: handler_cases [of env t1 t2 t3 t4 cb st])
  case silent
  with m show ?thesis by simp
next
  case (wait r)
  with m show ?thesis by simp
next
  case (missing data r cds c1)
  with kept_get_whisper_by_id [OF d m, of t3 t4 "str_remove data ''whisper_view_''"]
  show ?thesis by simp
next
  case (found api data r cds w0 c1)
  let ?k = "str_remove data ''whisper_view_''"
  have c1: "c1 = snd (get_whisper_by_id t3 t4 ?k (whispers_cache st))"
    using found(5) by simp
  have k1: "map_of c1 wid = None \<or> map_of c1 wid = Some w"
    unfolding c1 using d m by (rule kept_get_whisper_by_id)
  obtain is_recipient w1 where rc: "recipient_check env cb w0 = (is_recipient, w1)"
    by (metis prod.collapse)
  note h = handler_admitted_found [OF found rc]
  show ?thesis
  proof (cases "?k = wid")
    case False
    with k1 show ?thesis by (simp add: h update_conv')
  next
    case True
    from found(5) have "fst (get_whisper_by_id t3 t4 ?k (whispers_cache st)) = Some w0"
      by simp
    then have "map_of (whispers_cache st) ?k = Some w0"
      by (auto simp: fst_get_whisper_by_id [OF d] split: option.splits if_splits)
    with m True have w0: "w0 = w" by auto
    from n True found(2) have "requester_username env cb \<noteq> Some (recipient_username w)"
      by simp
    with u have "recipient_check env cb w = (False, w)" by (rule recipient_check_mismatch)
    with rc w0 have "w1 = w" by simp
    with True show ?thesis by (simp add: h update_conv')
  qed
qed

lemma unbound_step:
  assumes d: "distinct (map fst (whispers_cache st))"
    and u: "recipient_id w = None"
    and m: "map_of (whispers_cache st) wid = None \<or> map_of (whispers_cache st) wid = Some w"
    and x: "\<not> creates x wid" "\<not> names x wid (recipient_username w)"
  shows "map_of (whispers_cache (step x st)) wid = None
         \<or> map_of (whispers_cache (step x st)) wid = Some w"
proof (cases x)
  case (Create env now new_id sender recipient body)
  with x have "new_id \<noteq> wid" by simp
  with m Create create_cache_cases [of env now new_id sender recipient body "whispers_cache st"]
  show ?thesis by (auto simp: update_conv')
next
  case (GetById t1 t2 k)
  with kept_get_whisper_by_id [OF d m, of t1 t2 k] show ?thesis by simp
next
  case (ListFor t1 t2 v name)
  with kept_cleanup [OF d m, of t1] show ?thesis
    by (simp add: get_whispers_for_user_def Let_def)
next
  case (Sweep t)
  with kept_cleanup [OF d m, of t] show ?thesis by simp
next
  case (Reveal env t1 t2 t3 t4 cb)
  with unbound_handler [OF d u m, of env t1 t2 t3 t4 cb] x(2) show ?thesis by simp
qed

lemma unbound_run:
  assumes "distinct (map fst (whispers_cache st))"
    and "recipient_id w = None"
    and "map_of (whispers_cache st) wid = None \<or> map_of (whispers_cache st) wid = Some w"
    and "\<forall>x\<in>set ops. \<not> creates x wid \<and> \<not> names x wid (recipient_username w)"
  shows "distinct (map fst (whispers_cache (run ops st)))
         \<and> (map_of (whispers_cache (run ops st)) wid = None
            \<or> map_of (whispers_cache (run ops st)) wid = Some w)"
  using assms
proof (induction ops arbitrary: st)
  case Nil
  then show ?case unfolding run_Nil by blast
next
  case (Cons x ops)
  have d: "distinct (map fst (whispers_cache (step x st)))"
    using Cons.prems(1) by (rule distinct_step)
  have m: "map_of (whispers_cache (step x st)) wid = None
           \<or> map_of (whispers_cache (step x st)) wid = Some w"
    using Cons.prems(1,2,3) by (rule unbound_step) (use Cons.prems(4) in simp_all)
  have "\<forall>x\<in>set ops. \<not> creates x wid \<and> \<not> names x wid (recipient_username w)"
    using Cons.prems(4) by simp
  from Cons.IH [OF d Cons.prems(2) m this] show ?case unfolding run_Cons .
qed

subsection \<open>A press in two steps\<close>

text \<open>
  A press that ends before line 538 is the handler; so is a press suspended at line
  538 and resumed with nothing in between. A press of a whisper that has a recipient
  id is never suspended.
\<close>

lemma handler_as_finish:
  assumes "bot_instance env = Some api"
    and "nonempty (cb_data cb) = Some data" and "startswith data ''whisper_view_''"
    and "check_view_cooldown t1 t2 (cb_user_id cb) (view_cooldowns st) = ((True, r), cds)"
    and "get_whisper_by_id t3 t4 (str_remove data ''whisper_view_'') (whispers_cache st)
           = (Some w0, c1)"
    and "recipient_check env cb w0 = (is_recipient, w)"
  shows "whisper_callback_handler env t1 t2 t3 t4 cb st =
           (finish_press env api cb is_recipient w,
            \<lparr>whispers_cache = AList.update (str_remove data ''whisper_view_'') w c1,
             view_cooldowns = cds\<rparr>)"
  using handler_admitted_found [OF assms] by (simp add: finish_press_def)

lemma press_begin_finished:
  assumes "press_begin env t1 t2 t3 t4 cb st = (Finished acts, st')"
  shows "whisper_callback_handler env t1 t2 t3 t4 cb st = (acts, st')"
proof (cases "bot_instance env")
  case None
  with assms show ?thesis
    by (simp add: press_begin_def whisper_callback_handler_def)
next
  case api: (Some api)
  show ?thesis
  proof (cases "nonempty (cb_data cb)")
    case None
    with assms api show ?thesis
      by (simp add: press_begin_def whisper_callback_handler_def)
  next
    case data: (Some data)
    show ?thesis
    proof (cases "startswith data ''whisper_view_''")
      case False
      with assms api data show ?thesis
        by (simp add: press_begin_def whisper_callback_handler_def)
    next
      case pre: True
      obtain can r cds where
        gate: "check_view_cooldown t1 t2 (cb_user_id cb) (view_cooldowns st) = ((can, r), cds)"
        by (metis prod.collapse)
      show ?thesis
      proof (cases can)
        case False
        with assms api data pre gate show ?thesis
          by (simp add: press_begin_def whisper_callback_handler_def Let_def)
      next
        case True
        from gate True
        have gate: "check_view_cooldown t1 t2 (cb_user_id cb) (view_cooldowns st) = ((True, r), cds)"
          by simp
        obtain found c1 where
          get: "get_whisper_by_id t3 t4 (str_remove data ''whisper_view_'') (whispers_cache st)
                  = (found, c1)"
          by (metis prod.collapse)
        show ?thesis
        proof (cases found)
          case None
          with assms api data pre gate get show ?thesis
            by (simp add: press_begin_def whisper_callback_handler_def Let_def)
        next
          case (Some w0)
          note get = get [unfolded Some]
          obtain is_recipient w where rc: "recipient_check env cb w0 = (is_recipient, w)"
            by (metis prod.collapse)
          from assms api data pre gate get rc
          have "acts = finish_press env api cb is_recipient w
            \<and> st' = \<lparr>whispers_cache = AList.update (str_remove data ''whisper_view_'') w c1,
                     view_cooldowns = cds\<rparr>"
            by (simp add: press_begin_def Let_def split: if_splits)
          with handler_as_finish [OF api data pre gate get rc] show ?thesis by simp
        qed
      qed
    qed
  qed
qed

lemma press_begin_suspended:
  assumes "press_begin env t1 t2 t3 t4 cb st = (Suspended p, st')"
  obtains api data r cds w0 c1 where
    "bot_instance env = Some api"
    "nonempty (cb_data cb) = Some data" "startswith data ''whisper_view_''"
    "check_view_cooldown t1 t2 (cb_user_id cb) (view_cooldowns st) = ((True, r), cds)"
    "get_whisper_by_id t3 t4 (str_remove data ''whisper_view_'') (whispers_cache st)
       = (Some w0, c1)"
    "recipient_id w0 = None" "recipient_username w0 \<noteq> []" "nonempty (cb_username cb) = None"
    "p = \<lparr>pd_callback = cb, pd_api = api,
          pd_whisper_id = str_remove data ''whisper_view_'', pd_whisper = w0\<rparr>"
    "st' = \<lparr>whispers_cache = c1, view_cooldowns = cds\<rparr>"
proof (cases "bot_instance env")
  case None
  with assms show ?thesis by (simp add: press_begin_def)
next
  case api: (Some api)
  show ?thesis
  proof (cases "nonempty (cb_data cb)")
    case None
    with assms api show ?thesis by (simp add: press_begin_def)
  next
    case data: (Some data)
    show ?thesis
    proof (cases "startswith data ''whisper_view_''")
      case False
      with assms api data show ?thesis by (simp add: press_begin_def)
    next
      case pre: True
      obtain can r cds where
        gate: "check_view_cooldown t1 t2 (cb_user_id cb) (view_cooldowns st) = ((can, r), cds)"
        by (metis prod.collapse)
      show ?thesis
      proof (cases can)
        case False
        with assms api data pre gate show ?thesis by (simp add: press_begin_def Let_def)
      next
        case True
        from gate True
        have gate: "check_view_cooldown t1 t2 (cb_user_id cb) (view_cooldowns st) = ((True, r), cds)"
          by simp
        obtain found c1 where
          get: "get_whisper_by_id t3 t4 (str_remove data ''whisper_view_'') (whispers_cache st)
                  = (found, c1)"
          by (metis prod.collapse)
        show ?thesis
        proof (cases found)
          case None
          with assms api data pre gate get show ?thesis by (simp add: press_begin_def Let_def)
        next
          case (Some w0)
          note get = get [unfolded Some]
          from assms api data pre gate get
          have "recipient_id w0 = None \<and> recipient_username w0 \<noteq> []
                \<and> nonempty (cb_username cb) = None
                \<and> p = \<lparr>pd_callback = cb, pd_api = api,
                        pd_whisper_id = str_remove data ''whisper_view_'', pd_whisper = w0\<rparr>
                \<and> st' = \<lparr>whispers_cache = c1, view_cooldowns = cds\<rparr>"
            by (auto simp: press_begin_def Let_def split: if_splits prod.splits)
          with api data pre gate get show ?thesis by (intro that) auto
        qed
      qed
    qed
  qed
qed

lemma found_is_stored:
  assumes "get_whisper_by_id t1 t2 k c = (Some w, c1)"
  shows "map_of c1 k = Some w"
  using assms by (auto simp: get_whisper_by_id_def Let_def split: option.splits if_splits)

lemma press_uninterrupted:
  assumes "press_begin env t1 t2 t3 t4 cb st = (Suspended p, st')" and "w_state wd = st'"
  shows "press_resume env p wd =
           (fst (whisper_callback_handler env t1 t2 t3 t4 cb st),
            wd\<lparr>w_state := snd (whisper_callback_handler env t1 t2 t3 t4 cb st)\<rparr>)"
proof -
  from assms(1) obtain api data r cds w0 c1 where
    api: "bot_instance env = Some api" and
    data: "nonempty (cb_data cb) = Some data" "startswith data ''whisper_view_''" and
    gate: "check_view_cooldown t1 t2 (cb_user_id cb) (view_cooldowns st) = ((True, r), cds)" and
    get: "get_whisper_by_id t3 t4 (str_remove data ''whisper_view_'') (whispers_cache st)
       = (Some w0, c1)" and
    unbound: "recipient_id w0 = None" "recipient_username w0 \<noteq> []" and
    noname: "nonempty (cb_username cb) = None" and
    p: "p = \<lparr>pd_callback = cb, pd_api = api,
           pd_whisper_id = str_remove data ''whisper_view_'', pd_whisper = w0\<rparr>" and
    st': "st' = \<lparr>whispers_cache = c1, view_cooldowns = cds\<rparr>"
    by (rule press_begin_suspended)
  let ?k = "str_remove data ''whisper_view_''"
  have stored: "map_of c1 ?k = Some w0" using get by (rule found_is_stored)
  have held: "held_whisper \<lparr>pd_callback = cb, pd_api = api,
           pd_whisper_id = str_remove data ''whisper_view_'', pd_whisper = w0\<rparr> wd = w0"
    by (simp add: held_whisper_def assms(2) st' stored)
  have name: "requester_username env cb = looked_up_username env (cb_user_id cb)"
    by (simp add: requester_username_def looked_up_username_def noname
             split: outcome.splits option.splits)
  have unchanged: "AList.update ?k w0 c1 = c1" using stored by (rule update_triv)
  show ?thesis
  proof (cases "looked_up_username env (cb_user_id cb)")
    case None
    then have rc: "recipient_check env cb w0 = (False, w0)"
      using unbound by (simp add: recipient_check_def name)
    note h = handler_as_finish [OF api data gate get rc]
    have "snd (whisper_callback_handler env t1 t2 t3 t4 cb st) = w_state wd"
      by (simp add: h assms(2) st' unchanged)
    with None show ?thesis
      by (simp add: press_resume_def Let_def p held h)
  next
    case (Some u)
    show ?thesis
    proof (cases "recipient_username w0 = u")
      case True
      with Some have rc: "recipient_check env cb w0
                            = (True, w0\<lparr>recipient_id := Some (cb_user_id cb)\<rparr>)"
        using unbound by (simp add: recipient_check_def name)
      note h = handler_as_finish [OF api data gate get rc]
      have "assign_recipient ?k (cb_user_id cb) wd =
              wd\<lparr>w_state := \<lparr>whispers_cache =
                   AList.update ?k (w0\<lparr>recipient_id := Some (cb_user_id cb)\<rparr>) c1,
                 view_cooldowns = cds\<rparr>\<rparr>"
        by (simp add: assign_recipient_def assms(2) st' stored)
      with Some True show ?thesis
        by (simp add: press_resume_def Let_def p held h)
    next
      case False
      with Some have rc: "recipient_check env cb w0 = (False, w0)"
        using unbound by (simp add: recipient_check_def name)
      note h = handler_as_finish [OF api data gate get rc]
      have "snd (whisper_callback_handler env t1 t2 t3 t4 cb st) = w_state wd"
        by (simp add: h assms(2) st' unchanged)
      with Some False show ?thesis
        by (simp add: press_resume_def Let_def p held h)
    qed
  qed
qed

lemma bound_press_finishes:
  assumes "bot_instance env = Some api"
    and "nonempty (cb_data cb) = Some data" and "startswith data ''whisper_view_''"
    and "map_of (whispers_cache st) (str_remove data ''whisper_view_'') = Some w"
    and "distinct (map fst (whispers_cache st))"
    and "recipient_id w \<noteq> None"
  shows "\<exists>acts st'. press_begin env t1 t2 t3 t4 cb st = (Finished acts, st')"
proof (cases "fst (press_begin env t1 t2 t3 t4 cb st)")
  case (Finished acts)
  then show ?thesis by (metis prod.collapse)
next
  case (Suspended p)
  then have "press_begin env t1 t2 t3 t4 cb st = (Suspended p, snd (press_begin env t1 t2 t3 t4 cb st))"
    by (metis prod.collapse)
  then obtain data' w0 c1 where
    d': "nonempty (cb_data cb) = Some data'" and
    get: "get_whisper_by_id t3 t4 (str_remove data' ''whisper_view_'') (whispers_cache st)
       = (Some w0, c1)" and
    unbound: "recipient_id w0 = None"
    by (rule press_begin_suspended)
  from d' assms(2) have "data' = data" by simp
  with get have "fst (get_whisper_by_id t3 t4 (str_remove data ''whisper_view_'') (whispers_cache st)) = Some w0"
    by simp
  then have "map_of (whispers_cache st) (str_remove data ''whisper_view_'') = Some w0"
    by (auto simp: fst_get_whisper_by_id [OF assms(5)] split: option.splits if_splits)
  with assms(4,6) unbound show ?thesis by simp
qed

subsection \<open>Two presses that overlap\<close>

text \<open>
  C4 requires that the first requester with the matching handle is bound as recipient
  and that every later attempt by another identity that is not the sender is denied.
  Presses that do not overlap behave so (\<open>lazy_binding\<close>,
  \<open>wrong_handle_refused\<close>). The run below shows what the code does when two
  presses overlap. User 4 presents another handle and is refused. Users 3 and 5 carry
  no handle in their callbacks and the database has the handle \<open>bob\<close> for both;
  user 3 presses and waits at line 538, then user 5 presses and waits there too. The
  press of user 3 resumes first: user 3 is shown the text and becomes the recipient.
  The press of user 5 resumes: line 544 compares the handles and line 546 assigns
  without reading the recipient id again, so user 5 is shown the text and replaces
  user 3 as recipient. At a later time user 5 presses again and is shown the text,
  and user 3, who was bound first, is refused.
\<close>

theorem binding_race:
  "fst (play
     [Begin online 100 100 100 100 (press 4 (Some ''Eve'')),
      Begin (knowing ''bob'' [3, 5]) 100 100 100 100 (press 3 None),
      Begin (knowing ''bob'' [3, 5]) 100 100 100 100 (press 5 None),
      Resume 0 (knowing ''bob'' [3, 5]),
      Resume 0 (knowing ''bob'' [3, 5]),
      Atomic (Reveal (knowing ''bob'' [3, 5]) 200 200 200 200 (press 5 None)),
      Atomic (Reveal (knowing ''bob'' [3, 5]) 200 200 200 200 (press 3 None))] one_unbound)
   = [[AnswerCallback NoAccess True],
      [],
      [],
      [AnswerCallback (RevealAlert False Unknown ''hi'') True],
      [AnswerCallback (RevealAlert False Unknown ''hi'') True],
      [AnswerCallback (RevealAlert False Unknown ''hi'') True],
      [AnswerCallback NoAccess True]]
   \<and> map (\<lambda>p. cb_user_id (pd_callback p)) (w_pending (snd (play
     [Begin online 100 100 100 100 (press 4 (Some ''Eve'')),
      Begin (knowing ''bob'' [3, 5]) 100 100 100 100 (press 3 None),
      Begin (knowing ''bob'' [3, 5]) 100 100 100 100 (press 5 None)] one_unbound))) = [3, 5]
   \<and> map_option recipient_id (map_of (whispers_cache (w_state (snd (play
     [Begin online 100 100 100 100 (press 4 (Some ''Eve'')),
      Begin (knowing ''bob'' [3, 5]) 100 100 100 100 (press 3 None),
      Begin (knowing ''bob'' [3, 5]) 100 100 100 100 (press 5 None)] one_unbound))))
        ''w1'') = Some None
   \<and> map_option recipient_id (map_of (whispers_cache (w_state (snd (play
     [Begin online 100 100 100 100 (press 4 (Some ''Eve'')),
      Begin (knowing ''bob'' [3, 5]) 100 100 100 100 (press 3 None),
      Begin (knowing ''bob'' [3, 5]) 100 100 100 100 (press 5 None),
      Resume 0 (knowing ''bob'' [3, 5])] one_unbound))))
        ''w1'') = Some (Some 3)
   \<and> map_option recipient_id (map_of (whispers_cache (w_state (snd (play
     [Begin online 100 100 100 100 (press 4 (Some ''Eve'')),
      Begin (knowing ''bob'' [3, 5]) 100 100 100 100 (press 3 None),
      Begin (knowing ''bob'' [3, 5]) 100 100 100 100 (press 5 None),
      Resume 0 (knowing ''bob'' [3, 5]),
      Resume 0 (knowing ''bob'' [3, 5])] one_unbound))))
        ''w1'') = Some (Some 5)"
  by code_simp

end
